theory Spec2Isabelle
  imports Complex_Main
begin

section \<open>Errors and promise states\<close>

text \<open>
  Exceptions of the JavaScript source are values: \<open>Error msg\<close> is \<^verbatim>\<open>throw Error(msg)\<close>,
  \<open>TypeError\<close> is the engine's error for reading a property of \<^verbatim>\<open>undefined\<close> or
  \<^verbatim>\<open>null\<close> and for calling something that is not a function.
\<close>

datatype js_error = Error string | TypeError

datatype outcome = Fulfilled | Rejected

datatype pstate = Pending | Settled outcome

section \<open>PromiseSettledCoordinator (src/wrapper.js)\<close>

text \<open>
  The coordinator object has the fields \<^verbatim>\<open>promises\<close> and \<^verbatim>\<open>allSettled\<close>. The promises it
  tracks are objects of the host whose state changes outside the coordinator, so \<open>promises\<close>
  is the store of their current states, in registration order. Two more components make the
  effects of the source observable:
  \<^item> \<open>joins\<close>: one entry per \<^verbatim>\<open>Promise.allSettled(this.promises).then(...)\<close> callback that has
    been installed and has not run yet, holding the \<^verbatim>\<open>currentLength\<close> it closed over (the
    join waits for exactly the first \<^verbatim>\<open>currentLength\<close> promises, the array being read when
    \<^verbatim>\<open>Promise.allSettled\<close> is called);
  \<^item> \<open>finished_calls\<close>: the \<^verbatim>\<open>results\<close> argument of every invocation of \<^verbatim>\<open>this.finished\<close>, in
    order.
\<close>

record coordinator =
  promises :: "pstate list"
  allSettled :: bool
  joins :: "nat list"
  finished_calls :: "pstate list list"

definition new_coordinator :: coordinator where
  "new_coordinator = \<lparr>promises = [], allSettled = False, joins = [], finished_calls = []\<rparr>"

definition already_settled :: js_error where
  "already_settled = Error ''All promises have already been settled!''"

text \<open>
  \<^verbatim>\<open>addPromise(promise)\<close>: the result is the exception thrown, if any, and the coordinator
  after the call.
\<close>

definition addPromise :: "coordinator \<Rightarrow> pstate \<Rightarrow> js_error option \<times> coordinator" where
  "addPromise c promise =
     (if allSettled c then (Some already_settled, c)
      else
        let ps = promises c @ [promise];
            currentLength = length ps
        in (None, c\<lparr>promises := ps, joins := joins c @ [currentLength]\<rparr>))"

text \<open>
  The callback given to \<^verbatim>\<open>settled.then\<close>, for the join that closed over \<open>currentLength\<close>.
\<close>

definition join_callback :: "coordinator \<Rightarrow> nat \<Rightarrow> coordinator" where
  "join_callback c currentLength =
     (let c1 = c\<lparr>joins := remove1 currentLength (joins c)\<rparr>
      in if currentLength = length (promises c1)
         then c1\<lparr>allSettled := True,
                 finished_calls := finished_calls c1 @ [take currentLength (promises c1)]\<rparr>
         else c1)"

definition join_ready :: "coordinator \<Rightarrow> nat \<Rightarrow> bool" where
  "join_ready c k = (k \<in> set (joins c) \<and> Pending \<notin> set (take k (promises c)))"

text \<open>
  What can happen to a coordinator: a registration (of a promise that is pending or has
  settled already), the settlement of a tracked promise that is still pending, and the run
  of a join callback whose promises have all settled. \<open>cstep\<close> is \<open>None\<close> where the event
  cannot happen in that state, and for a registration that throws.
\<close>

datatype cevent = Add pstate | Settle nat outcome | Join nat

fun cstep :: "coordinator \<Rightarrow> cevent \<Rightarrow> coordinator option" where
  "cstep c (Add p) = (case addPromise c p of (None, c') \<Rightarrow> Some c' | (Some e, c') \<Rightarrow> None)"
| "cstep c (Settle i out) =
     (if i < length (promises c) \<and> promises c ! i = Pending
      then Some (c\<lparr>promises := (promises c)[i := Settled out]\<rparr>) else None)"
| "cstep c (Join k) = (if join_ready c k then Some (join_callback c k) else None)"

fun crun :: "coordinator \<Rightarrow> cevent list \<Rightarrow> coordinator option" where
  "crun c [] = Some c"
| "crun c (e # es) = (case cstep c e of None \<Rightarrow> None | Some c' \<Rightarrow> crun c' es)"

text \<open>A run is over when every tracked promise has settled and every join callback has run.\<close>

definition quiescent :: "coordinator \<Rightarrow> bool" where
  "quiescent c = (Pending \<notin> set (promises c) \<and> joins c = [])"

text \<open>
  What holds of a coordinator in every state it can reach: the pending joins are distinct
  snapshots of lengths the list has had; once \<open>allSettled\<close> is set, every tracked promise
  has settled, the join of the full list has run and \<^verbatim>\<open>finished\<close> was called once, with the
  results of all promises; before that, \<^verbatim>\<open>finished\<close> was not called and the join installed
  by the last registration has not run.
\<close>

definition cinv :: "coordinator \<Rightarrow> bool" where
  "cinv c =
     (distinct (joins c) \<and> (\<forall>k \<in> set (joins c). k \<le> length (promises c)) \<and>
      (if allSettled c
       then Pending \<notin> set (promises c) \<and> length (promises c) \<notin> set (joins c) \<and>
            finished_calls c = [promises c]
       else finished_calls c = [] \<and>
            (promises c \<noteq> [] \<longrightarrow> length (promises c) \<in> set (joins c))))"

section \<open>JavaScript values and objects\<close>

text \<open>
  The values the tracer stores in span data and in the wire batch. Numbers in span data are
  millisecond timestamps, durations and status codes, so \<open>JNum\<close> carries an integer.
  \<open>JErr name message stack\<close> is an \<^verbatim>\<open>Error\<close> object. A plain object is the list of its own
  properties in insertion order, an array the list of its elements.
\<close>

datatype jsval =
    JUndefined
  | JNull
  | JBool bool
  | JNum int
  | JStr string
  | JErr string string string
  | JArr "jsval list"
  | JObj "(string \<times> jsval) list"

type_synonym obj = "(string \<times> jsval) list"

fun truthy :: "jsval \<Rightarrow> bool" where
  "truthy JUndefined = False"
| "truthy JNull = False"
| "truthy (JBool b) = b"
| "truthy (JNum n) = (n \<noteq> 0)"
| "truthy (JStr s) = (s \<noteq> [])"
| "truthy (JErr n m st) = True"
| "truthy (JArr vs) = True"
| "truthy (JObj kvs) = True"

text \<open>\<^verbatim>\<open>o[k] = v\<close>: an existing property keeps its place, a new one goes last.\<close>

fun obj_set :: "('k \<times> 'v) list \<Rightarrow> 'k \<Rightarrow> 'v \<Rightarrow> ('k \<times> 'v) list" where
  "obj_set [] k v = [(k, v)]"
| "obj_set ((k', v') # kvs) k v =
     (if k' = k then (k, v) # kvs else (k', v') # obj_set kvs k v)"

text \<open>\<^verbatim>\<open>o[k]\<close> on an object: \<^verbatim>\<open>undefined\<close> for a missing property.\<close>

definition obj_get :: "obj \<Rightarrow> string \<Rightarrow> jsval" where
  "obj_get kvs k = (case map_of kvs k of None \<Rightarrow> JUndefined | Some v \<Rightarrow> v)"

text \<open>\<^verbatim>\<open>Object.assign(target, source)\<close>: every own property of the source is written to the
  target, in the source's order.\<close>

definition object_assign :: "('k \<times> 'v) list \<Rightarrow> ('k \<times> 'v) list \<Rightarrow> ('k \<times> 'v) list" where
  "object_assign target source = foldl (\<lambda>to (k, v). obj_set to k v) target source"

text \<open>
  Reading a property. On \<^verbatim>\<open>undefined\<close> and \<^verbatim>\<open>null\<close> the engine throws a TypeError;
  the other primitives and arrays have none of the properties the tracer reads by name.
\<close>

fun read_prop :: "jsval \<Rightarrow> string \<Rightarrow> jsval" where
  "read_prop (JObj kvs) k = obj_get kvs k"
| "read_prop (JErr n m st) k =
     (if k = ''name'' then JStr n else if k = ''message'' then JStr m
      else if k = ''stack'' then JStr st else JUndefined)"
| "read_prop v k = JUndefined"

definition get_prop :: "jsval \<Rightarrow> string \<Rightarrow> js_error + jsval" where
  "get_prop v k = (if v = JUndefined \<or> v = JNull then Inl TypeError else Inr (read_prop v k))"

definition bindE :: "js_error + 'a \<Rightarrow> ('a \<Rightarrow> js_error + 'b) \<Rightarrow> js_error + 'b" where
  "bindE r f = (case r of Inl e \<Rightarrow> Inl e | Inr v \<Rightarrow> f v)"

subsection \<open>Strings\<close>

text \<open>
  Header names are HTTP tokens, hence ASCII; \<^verbatim>\<open>toLowerCase\<close> maps \<^verbatim>\<open>A\<close>..\<^verbatim>\<open>Z\<close> to
  \<^verbatim>\<open>a\<close>..\<^verbatim>\<open>z\<close> and leaves every other character alone.
\<close>

definition lower_char :: "char \<Rightarrow> char" where
  "lower_char c =
     (case map_of (zip ''ABCDEFGHIJKLMNOPQRSTUVWXYZ'' ''abcdefghijklmnopqrstuvwxyz'') c of
        None \<Rightarrow> c | Some l \<Rightarrow> l)"

definition toLowerCase :: "string \<Rightarrow> string" where
  "toLowerCase s = map lower_char s"

text \<open>\<^verbatim>\<open>Number.prototype.toString\<close> on an integer: its decimal digits.\<close>

definition digit_char :: "nat \<Rightarrow> char" where
  "digit_char d = ''0123456789'' ! (d mod 10)"

function show_nat :: "nat \<Rightarrow> string" where
  "show_nat n = (if n < 10 then [digit_char n] else show_nat (n div 10) @ [digit_char (n mod 10)])"
  by pat_completeness auto
termination
  by (relation "measure id") auto

definition show_int :: "int \<Rightarrow> string" where
  "show_int i = (if i < 0 then CHR ''-'' # show_nat (nat (- i)) else show_nat (nat i))"

text \<open>
  \<^verbatim>\<open>v.toString()\<close>: a TypeError on \<^verbatim>\<open>undefined\<close> and \<^verbatim>\<open>null\<close>; an \<^verbatim>\<open>Error\<close> object prints
  as \<^verbatim>\<open>name: message\<close>, a plain object as \<^verbatim>\<open>[object Object]\<close>, an array as its elements
  joined by commas, \<^verbatim>\<open>undefined\<close> and \<^verbatim>\<open>null\<close> elements printing as nothing. No value here is
  a function, so on an object with an own property \<^verbatim>\<open>toString\<close> the call is a call of
  something that is not a function: a TypeError.
\<close>

fun join_comma :: "string list \<Rightarrow> string" where
  "join_comma [] = []"
| "join_comma [s] = s"
| "join_comma (s # t # ss) = s @ '','' @ join_comma (t # ss)"

fun to_string :: "jsval \<Rightarrow> string" where
  "to_string (JBool b) = (if b then ''true'' else ''false'')"
| "to_string (JNum n) = show_int n"
| "to_string (JStr s) = s"
| "to_string (JErr n m st) = (if n = [] then m else if m = [] then n else n @ '': '' @ m)"
| "to_string (JArr vs) =
     join_comma (map (\<lambda>v. if v = JUndefined \<or> v = JNull then [] else to_string v) vs)"
| "to_string (JObj kvs) = ''[object Object]''"
| "to_string JUndefined = ''undefined''"
| "to_string JNull = ''null''"

definition call_toString :: "jsval \<Rightarrow> js_error + string" where
  "call_toString v =
     (if v = JUndefined \<or> v = JNull then Inl TypeError
      else case v of
             JObj kvs \<Rightarrow> if ''toString'' \<in> fst ` set kvs then Inl TypeError else Inr (to_string v)
           | _ \<Rightarrow> Inr (to_string v))"

section \<open>Header conversion and redaction (tracer, \<^verbatim>\<open>convertHeaders\<close>)\<close>


text \<open>
  \<^verbatim>\<open>to[key] = value\<close> on the plain object \<^verbatim>\<open>to\<close>, for a string \<^verbatim>\<open>value\<close>. The key \<^verbatim>\<open>__proto__\<close> is
  the accessor of \<^verbatim>\<open>Object.prototype\<close>, whose setter ignores a value that is not an object:
  no property is made. Every other key becomes, or stays, an own property.
\<close>

definition set_header :: "(string \<times> string) list \<Rightarrow> string \<Rightarrow> string \<Rightarrow> (string \<times> string) list" where
  "set_header to key v = (if key = ''__proto__'' then to else obj_set to key v)"

text \<open>The loop of \<^verbatim>\<open>convertHeaders\<close> over the entries.\<close>

definition convert_entries :: "(string \<times> string) list \<Rightarrow> string list \<Rightarrow> (string \<times> string) list" where
  "convert_entries entries redacted =
     foldl (\<lambda>to (key, value).
              let key = toLowerCase key
              in set_header to key (if key \<in> set redacted then ''REDACTED'' else value))
       [] entries"


definition headers_json :: "(string \<times> string) list \<Rightarrow> jsval" where
  "headers_json hs = JObj (map (\<lambda>(k, v). (k, JStr v)) hs)"



section \<open>Configuration (\<^verbatim>\<open>resolve\<close>, src/wrapper.js)\<close>

text \<open>
  A sample rate is a JavaScript number or \<^verbatim>\<open>undefined\<close> (\<open>None\<close>). \<^verbatim>\<open>sampleRates\<close> is a function
  of the root span's data, or a table from outcome class to rate.
\<close>

datatype sample_rates =
    RateFunction "obj \<Rightarrow> real option"
  | RateTable "(string \<times> real) list"

record config =
  acceptTraceContext :: bool
  token :: string
  app_name :: string
  data :: obj
  redactRequestHeaders :: "string list"
  redactResponseHeaders :: "string list"
  sampleRates :: sample_rates
  sendTraceContext :: bool
  serviceName :: string

text \<open>The options a caller may pass; \<open>None\<close> is an option that \<^verbatim>\<open>cfg\<close> does not have.\<close>

record user_config =
  cfg_acceptTraceContext :: "bool option"
  cfg_token :: "string option"
  cfg_app_name :: "string option"
  cfg_data :: "obj option"
  cfg_redactRequestHeaders :: "string list option"
  cfg_redactResponseHeaders :: "string list option"
  cfg_sampleRates :: "sample_rates option"
  cfg_sendTraceContext :: "bool option"
  cfg_serviceName :: "string option"

definition or_default :: "'a option \<Rightarrow> 'a \<Rightarrow> 'a" where
  "or_default given dflt = (case given of None \<Rightarrow> dflt | Some v \<Rightarrow> v)"

definition resolve :: "user_config \<Rightarrow> config" where
  "resolve cfg =
     (let config = \<lparr>
            acceptTraceContext = or_default (cfg_acceptTraceContext cfg) False,
            token = or_default (cfg_token cfg) '''',
            app_name = or_default (cfg_app_name cfg) ''cloudflare'',
            data = or_default (cfg_data cfg) [],
            redactRequestHeaders =
              or_default (cfg_redactRequestHeaders cfg) [''authorization'', ''cookie'', ''referer''],
            redactResponseHeaders = or_default (cfg_redactResponseHeaders cfg) [''set-cookie''],
            sampleRates = or_default (cfg_sampleRates cfg) (RateFunction (\<lambda>d. Some 1)),
            sendTraceContext = or_default (cfg_sendTraceContext cfg) False,
            serviceName = or_default (cfg_serviceName cfg) ''worker''\<rparr>
      in config\<lparr>
           redactRequestHeaders := map toLowerCase (redactRequestHeaders config),
           redactResponseHeaders := map toLowerCase (redactResponseHeaders config)\<rparr>)"

section \<open>Span (tracer)\<close>

text \<open>
  \<^verbatim>\<open>eventMeta\<close> is created with \<^verbatim>\<open>timestamp\<close>, \<^verbatim>\<open>name\<close>, \<^verbatim>\<open>trace\<close> and \<^verbatim>\<open>service_name\<close>;
  \<^verbatim>\<open>duration_ms\<close> becomes a property only when \<^verbatim>\<open>finish()\<close> writes it. \<^verbatim>\<open>Date.now()\<close> is the
  argument \<open>now\<close> of the operations that read the clock. The configuration is one object
  shared by all spans of a request and is passed to the operations that read it. The fields
  \<^verbatim>\<open>request\<close> and \<^verbatim>\<open>response\<close> of a span, which hold the host's objects and are not read
  again, and the methods \<^verbatim>\<open>log\<close> and \<^verbatim>\<open>fetch\<close> are left out.
\<close>

record event_meta =
  timestamp :: int
  name :: jsval
  trace :: jsval
  service_name :: jsval
  duration_ms :: "int option"

datatype span = Span (span_data: obj) (eventMeta: event_meta) (childSpans: "span list")

text \<open>The own properties of \<^verbatim>\<open>eventMeta\<close>, in the order they were created.\<close>

definition meta_entries :: "event_meta \<Rightarrow> obj" where
  "meta_entries m =
     [(''timestamp'', JNum (timestamp m)), (''name'', name m), (''trace'', trace m),
      (''service_name'', service_name m)] @
     (case duration_ms m of None \<Rightarrow> [] | Some d \<Rightarrow> [(''duration_ms'', JNum d)])"

text \<open>\<^verbatim>\<open>new Span(init, config)\<close> with \<^verbatim>\<open>init = {name, trace_context, service_name}\<close>.\<close>

definition new_Span :: "jsval \<Rightarrow> jsval \<Rightarrow> jsval \<Rightarrow> int \<Rightarrow> span" where
  "new_Span init_name init_trace_context init_service_name now =
     Span []
       \<lparr>timestamp = now, name = init_name, trace = init_trace_context,
        service_name = init_service_name, duration_ms = None\<rparr>
       []"

definition to_event :: "span \<Rightarrow> obj" where
  "to_event s = object_assign (object_assign [] (span_data s)) (meta_entries (eventMeta s))"

fun parseToEvents :: "span \<Rightarrow> obj list" where
  "parseToEvents (Span d m cs) =
     (let event = object_assign (object_assign [] d) (meta_entries m);
          childEvents = concat (map parseToEvents cs)
      in event # childEvents)"

definition addData :: "span \<Rightarrow> obj \<Rightarrow> span" where
  "addData s patch = Span (object_assign (span_data s) patch) (eventMeta s) (childSpans s)"

definition start :: "span \<Rightarrow> int \<Rightarrow> span" where
  "start s now = Span (span_data s) ((eventMeta s)\<lparr>timestamp := now\<rparr>) (childSpans s)"

definition finish :: "span \<Rightarrow> int \<Rightarrow> span" where
  "finish s now =
     Span (span_data s) ((eventMeta s)\<lparr>duration_ms := Some (now - timestamp (eventMeta s))\<rparr>)
       (childSpans s)"

text \<open>
  \<^verbatim>\<open>startChildSpan(name, serviceName)\<close> returns the child and leaves it pushed on the
  parent's \<^verbatim>\<open>childSpans\<close>: the result is the child and the parent after the call. The local
  \<^verbatim>\<open>trace\<close> is read from the parent and not passed on: the \<^verbatim>\<open>init\<close> object of the child has
  no \<^verbatim>\<open>trace_context\<close>.
\<close>

definition startChildSpan :: "span \<Rightarrow> jsval \<Rightarrow> jsval \<Rightarrow> int \<Rightarrow> span \<times> span" where
  "startChildSpan s child_name serviceName_arg now =
     (let parent_trace = trace (eventMeta s);
          child_service_name =
            (if truthy serviceName_arg then serviceName_arg else service_name (eventMeta s));
          span = new_Span child_name JUndefined child_service_name now
      in (span, Span (span_data s) (eventMeta s) (childSpans s @ [span])))"

subsection \<open>Captured requests and responses\<close>

text \<open>
  The host's request and response objects, with the properties the tracer reads. Their
  \<^verbatim>\<open>headers\<close> is a \<^verbatim>\<open>Headers\<close> object, given by its entries, on which \<^verbatim>\<open>convertHeaders\<close> does not
  throw and returns \<open>convert_entries\<close> of them; \<open>None\<close> is a request or response whose
  \<^verbatim>\<open>headers\<close> is not set.
\<close>

record request =
  req_headers :: "(string \<times> string) list option"
  req_method :: string
  req_redirect :: string
  req_referrer :: string
  req_referrerPolicy :: string
  req_url :: string

record response =
  res_headers :: "(string \<times> string) list option"
  res_ok :: bool
  res_redirected :: bool
  res_status :: int
  res_statusText :: string
  res_url :: string

definition addRequest :: "config \<Rightarrow> span \<Rightarrow> request option \<Rightarrow> span" where
  "addRequest cfg s request =
     (case request of
        None \<Rightarrow> s
      | Some r \<Rightarrow>
          let json = JObj
                [(''headers'', (case req_headers r of
                                  Some h \<Rightarrow> headers_json (convert_entries h (redactRequestHeaders cfg))
                                | None \<Rightarrow> JUndefined)),
                 (''method'', JStr (req_method r)),
                 (''redirect'', JStr (req_redirect r)),
                 (''referrer'', JStr (req_referrer r)),
                 (''referrerPolicy'', JStr (req_referrerPolicy r)),
                 (''url'', JStr (req_url r))]
          in addData s [(''request'', json)])"

definition addResponse :: "config \<Rightarrow> span \<Rightarrow> response option \<Rightarrow> jsval \<Rightarrow> span" where
  "addResponse cfg s response body =
     (case response of
        None \<Rightarrow> s
      | Some r \<Rightarrow>
          let json = JObj
                [(''headers'', (case res_headers r of
                                  Some h \<Rightarrow> headers_json (convert_entries h (redactResponseHeaders cfg))
                                | None \<Rightarrow> JUndefined)),
                 (''ok'', JBool (res_ok r)),
                 (''redirected'', JBool (res_redirected r)),
                 (''status'', JNum (res_status r)),
                 (''statusText'', JStr (res_statusText r)),
                 (''url'', JStr (res_url r)),
                 (''body'', body)]
          in addData s [(''response'', json)])"

subsection \<open>Positions in a span tree\<close>

text \<open>
  A position is the list of child indices that leads from the root to a span. \<open>span_at\<close>
  follows a position; \<open>paths\<close> lists positions; \<open>path_less\<close> is the lexicographic order on
  positions, in which a span comes before its descendants and a child before its later
  siblings and their descendants: the pre-order of the tree.
\<close>

fun paths :: "span \<Rightarrow> nat list list" and paths_from :: "nat \<Rightarrow> span list \<Rightarrow> nat list list" where
  "paths (Span d m cs) = [] # paths_from 0 cs"
| "paths_from i [] = []"
| "paths_from i (c # cs) = map ((#) i) (paths c) @ paths_from (Suc i) cs"

fun span_at :: "span \<Rightarrow> nat list \<Rightarrow> span option" where
  "span_at s [] = Some s"
| "span_at s (i # p) =
     (if i < length (childSpans s) then span_at (childSpans s ! i) p else None)"

definition event_at :: "span \<Rightarrow> nat list \<Rightarrow> obj option" where
  "event_at s p = map_option to_event (span_at s p)"

definition path_less :: "nat list \<Rightarrow> nat list \<Rightarrow> bool" where
  "path_less p q = ((p, q) \<in> lexord {(i, j). i < j})"

fun count_spans :: "span \<Rightarrow> nat" where
  "count_spans (Span d m cs) = Suc (sum_list (map count_spans cs))"

text \<open>A span with a name, no data and the given children, for examples.\<close>

definition named_span :: "string \<Rightarrow> span list \<Rightarrow> span" where
  "named_span n cs =
     Span [] \<lparr>timestamp = 0, name = JStr n, trace = JUndefined, service_name = JStr ''worker'',
             duration_ms = None\<rparr> cs"

text \<open>No span of the tree has a trace context.\<close>

fun no_trace :: "span \<Rightarrow> bool" where
  "no_trace (Span d m cs) = (trace m = JUndefined \<and> (\<forall>c \<in> set cs. no_trace c))"

section \<open>RequestTracer (tracer)\<close>

text \<open>
  \<^verbatim>\<open>RequestTracer\<close> extends \<^verbatim>\<open>Span\<close>: \<open>self\<close> is the span part of the object, \<open>sampleRate\<close> the
  field \<^verbatim>\<open>setSampleRate\<close> writes (\<open>None\<close> while it is \<^verbatim>\<open>undefined\<close>).
\<close>

record tracer =
  self :: span
  config :: config
  sampleRate :: "real option"

definition new_RequestTracer :: "request option \<Rightarrow> config \<Rightarrow> int \<Rightarrow> tracer" where
  "new_RequestTracer request cfg now =
     (let s0 = new_Span (JStr ''request'') JUndefined (JStr (serviceName cfg)) now;
          s1 = addRequest cfg s0 request;
          s2 = addData s1 (data cfg)
      in \<lparr>self = s2, config = cfg, sampleRate = None\<rparr>)"

definition setSampleRate :: "tracer \<Rightarrow> real option \<Rightarrow> tracer" where
  "setSampleRate t r = t\<lparr>sampleRate := r\<rparr>"

text \<open>
  \<^verbatim>\<open>getSampleRate(data)\<close>. In the table case the test is
  \<^verbatim>\<open>!data.response && !data.response.status\<close>: its right operand is evaluated exactly when
  \<^verbatim>\<open>data.response\<close> is falsy.
\<close>

definition getSampleRate :: "tracer \<Rightarrow> obj \<Rightarrow> js_error + real option" where
  "getSampleRate t d =
     (case sampleRate t of
        Some r \<Rightarrow> Inr (Some r)
      | None \<Rightarrow>
         (case sampleRates (config t) of
            RateFunction f \<Rightarrow> Inr (f d)
          | RateTable tab \<Rightarrow>
              bindE (if \<not> truthy (obj_get d ''response'')
                     then bindE (get_prop (obj_get d ''response'') ''status'')
                            (\<lambda>status. Inr (\<not> truthy status))
                     else Inr False)
                (\<lambda>no_response.
                   if no_response then Inr (map_of tab ''exception'')
                   else
                     bindE (get_prop (obj_get d ''response'') ''status'') (\<lambda>status.
                     bindE (call_toString status) (\<lambda>str.
                       let key = (case str of [] \<Rightarrow> ''undefined'' | c # cs \<Rightarrow> [c]) @ ''xx''
                       in Inr (case map_of tab key of
                                 None \<Rightarrow> Some 1
                               | Some r \<Rightarrow> if r \<noteq> 0 then Some r else Some 1))))))"

text \<open>
  \<^verbatim>\<open>sendEvents(excludeSpans)\<close>. \<open>random\<close> is the value of \<^verbatim>\<open>Math.random()\<close>, a number in
  \<open>[0, 1)\<close>. The result is \<open>Some (events, sampleRate)\<close>, the arguments of the call of
  \<^verbatim>\<open>sendBatch\<close>, or \<open>None\<close> when \<^verbatim>\<open>sendBatch\<close> is not called; an error of \<^verbatim>\<open>getSampleRate\<close>
  rejects the promise \<^verbatim>\<open>sendEvents\<close> returns. \<^verbatim>\<open>undefined >= 1\<close> is false.
\<close>

definition sendEvents ::
  "tracer \<Rightarrow> string list option \<Rightarrow> real \<Rightarrow> js_error + (obj list \<times> real option) option" where
  "sendEvents t excludeSpans random =
     bindE (getSampleRate t (span_data (self t))) (\<lambda>sampleRate.
       if (case sampleRate of None \<Rightarrow> False | Some r \<Rightarrow> r \<ge> 1 \<and> random < 1 / r)
       then
         let events = filter (\<lambda>event. case excludeSpans of
                                         Some ex \<Rightarrow> obj_get event ''name'' \<notin> JStr ` set ex
                                       | None \<Rightarrow> True)
                        (parseToEvents (self t))
         in Inr (Some (events, sampleRate))
       else Inr None)"

text \<open>
  \<^verbatim>\<open>finishResponse(response, error, body)\<close>; at its call sites \<^verbatim>\<open>response\<close> is a response
  object or \<^verbatim>\<open>undefined\<close>. The properties of a truthy \<^verbatim>\<open>error\<close> are read without an error;
  \<^verbatim>\<open>error.toString()\<close> can throw, and does so while the argument of \<^verbatim>\<open>addData\<close> is built:
  \<open>Inl\<close> is the error thrown, the tracer being as it was.
\<close>

definition finishResponse ::
  "tracer \<Rightarrow> response option \<Rightarrow> jsval \<Rightarrow> jsval \<Rightarrow> int \<Rightarrow> js_error + tracer" where
  "finishResponse t response error body now =
     bindE (case response of
              Some r \<Rightarrow> Inr (addResponse (config t) (self t) (Some r) body)
            | None \<Rightarrow>
                if truthy error
                then bindE (call_toString error) (\<lambda>responseException.
                       Inr (addData (self t)
                              [(''exception'', JBool True),
                               (''error_name'', read_prop error ''name''),
                               (''stack'', read_prop error ''stack''),
                               (''message'', read_prop error ''message''),
                               (''responseException'', JStr responseException)]))
                else Inr (self t))
       (\<lambda>s1. Inr (t\<lparr>self := finish s1 now\<rparr>))"

subsection \<open>The wire batch (\<^verbatim>\<open>sendBatch\<close>)\<close>

text \<open>\<^verbatim>\<open>s.replace(pat, rep)\<close> with a string pattern replaces its first occurrence;
  \<^verbatim>\<open>s.split('.')[0]\<close> is the part of \<open>s\<close> before the first dot.\<close>

fun replace_first :: "string \<Rightarrow> string \<Rightarrow> string \<Rightarrow> string" where
  "replace_first pat rep [] = (if pat = [] then rep else [])"
| "replace_first pat rep (c # cs) =
     (if take (length pat) (c # cs) = pat then rep @ drop (length pat) (c # cs)
      else c # replace_first pat rep cs)"

definition before_dot :: "string \<Rightarrow> string" where
  "before_dot s = takeWhile (\<lambda>c. c \<noteq> CHR ''.'') s"

text \<open>A method of strings called on a value: a TypeError unless the value is a string.\<close>

definition as_string :: "jsval \<Rightarrow> js_error + string" where
  "as_string v = (case v of JStr s \<Rightarrow> Inr s | _ \<Rightarrow> Inl TypeError)"

fun mapE :: "('a \<Rightarrow> js_error + 'b) \<Rightarrow> 'a list \<Rightarrow> js_error + 'b list" where
  "mapE f [] = Inr []"
| "mapE f (x # xs) = bindE (f x) (\<lambda>y. bindE (mapE f xs) (\<lambda>ys. Inr (y # ys)))"

text \<open>The \<^verbatim>\<open>http_trace\<close> object built for \<^verbatim>\<open>events[i]\<close>, \<open>i \<ge> 1\<close>.\<close>

definition http_trace :: "obj \<Rightarrow> js_error + jsval" where
  "http_trace event =
     bindE (get_prop (obj_get event ''request'') ''method'') (\<lambda>operation.
     bindE (get_prop (obj_get event ''request'') ''headers'') (\<lambda>request_headers.
     bindE (get_prop (obj_get event ''response'') ''body'') (\<lambda>response_body.
     bindE (get_prop (obj_get event ''response'') ''status'') (\<lambda>status.
     bindE (get_prop (obj_get event ''response'') ''url'') (\<lambda>url.
       Inr (JObj
         [(''origin'', JStr ''http''),
          (''resource'', JObj
             [(''name'', obj_get event ''name''),
              (''type'', JStr ''http''),
              (''operation'', operation),
              (''metadata'', JObj
                 [(''path'', obj_get event ''name''),
                  (''request_headers'', request_headers),
                  (''response_body'', response_body),
                  (''status'', status),
                  (''url'', url)])]),
          (''error_code'', JNum 0),
          (''exception'', JObj [])]))))))"

text \<open>
  \<^verbatim>\<open>sendBatch(events, sampleRate)\<close> builds the object \<^verbatim>\<open>traces\<close> and posts it; its body is one
  \<^verbatim>\<open>try\<close> block whose \<^verbatim>\<open>catch\<close> logs the error. The result is \<open>Inr traces\<close>, the object that is
  serialized into the request, or \<open>Inl\<close> the error that was caught before the request was
  made; nothing is thrown to the caller. \<open>pathname\<close> stands for the host's
  \<^verbatim>\<open>new URL(u).pathname\<close>, \<open>None\<close> where the constructor throws. The random \<^verbatim>\<open>id\<close>s and
  \<^verbatim>\<open>http_trace_id\<close>, the fields \<^verbatim>\<open>start_time\<close> and \<^verbatim>\<open>duration\<close> (products with \<^verbatim>\<open>0.001\<close>, which
  cannot throw once \<^verbatim>\<open>events[i]\<close> is an object) and \<^verbatim>\<open>debug_events\<close> are left out of the
  objects. The parameter \<^verbatim>\<open>sampleRate\<close> is not used by the source.
\<close>

definition sendBatch :: "config \<Rightarrow> (jsval \<Rightarrow> string option) \<Rightarrow> obj list \<Rightarrow> js_error + jsval" where
  "sendBatch cfg pathname events =
     (case events of
        [] \<Rightarrow> Inl TypeError
      | event0 # rest \<Rightarrow>
          bindE (get_prop (obj_get event0 ''request'') ''headers'') (\<lambda>headers.
          bindE (get_prop headers ''host'') (\<lambda>host.
          bindE (get_prop (obj_get event0 ''request'') ''method'') (\<lambda>method.
          bindE (get_prop (obj_get event0 ''request'') ''url'') (\<lambda>url.
          bindE (case pathname url of None \<Rightarrow> Inl TypeError | Some p \<Rightarrow> Inr p) (\<lambda>path.
          bindE (as_string host) (\<lambda>host_string.
            let trigger_trace = JObj
                  [(''origin'', JStr ''trigger''),
                   (''resource'', JObj
                      [(''name'', host),
                       (''type'', JStr ''http''),
                       (''operation'', method),
                       (''metadata'', JObj
                          [(''headers'', headers),
                           (''pathname'', JStr path),
                           (''requestContext'', obj_get event0 ''request'')])]),
                   (''error_code'', JNum 0),
                   (''exception'', JObj [])];
                runner_trace =
                  [(''origin'', JStr ''runner''),
                   (''resource'', JObj
                      [(''name'',
                        JStr (before_dot (replace_first ''https://'' [] host_string) @ ''-worker'')),
                       (''type'', JStr ''cloudflare_worker''),
                       (''operation'', JStr ''execute''),
                       (''metadata'', JObj
                          [(''return_value'',
                            (if truthy (obj_get event0 ''response'')
                             then read_prop (obj_get event0 ''response'') ''body'' else JNull))])])];
                runner_trace =
                  (if truthy (obj_get event0 ''exception'')
                   then obj_set
                          (obj_set runner_trace ''exception'' (JObj
                             [(''type'', obj_get event0 ''error_name''),
                              (''tracebook'', obj_get event0 ''stack''),
                              (''additional_data'',
                               JObj [(''warning'', JBool False), (''handled'', JBool False)]),
                              (''message'', obj_get event0 ''message'')]))
                          ''error_code'' (JNum 2)
                   else obj_set (obj_set runner_trace ''exception'' (JObj []))
                          ''error_code'' (JNum 0))
            in bindE (mapE http_trace rest) (\<lambda>http_traces.
                 Inr (JObj
                   [(''app_name'', JStr (app_name cfg)),
                    (''token'', JStr (token cfg)),
                    (''version'', JStr ''1.0.0''),
                    (''platform'', JStr ''Javascript''),
                    (''exceptions'', JArr []),
                    (''events'', JArr (trigger_trace # JObj runner_trace # http_traces))])))))))))"

text \<open>The second element of \<^verbatim>\<open>traces.events\<close>.\<close>

definition runner_trace_of :: "jsval \<Rightarrow> jsval" where
  "runner_trace_of traces =
     (case read_prop traces ''events'' of
        JArr (trigger # runner # https) \<Rightarrow> runner
      | _ \<Rightarrow> JUndefined)"

section \<open>TraceWrapper (src/wrapper.js)\<close>

text \<open>
  The wrapper of one request. \<^verbatim>\<open>this.waitUntilSpan\<close> is the object that \<^verbatim>\<open>startChildSpan\<close>
  pushed first on the tracer's \<^verbatim>\<open>childSpans\<close>; every later push goes behind it, so the field
  is the first child of \<open>self\<close> of the tracer and \<open>on_waitUntilSpan\<close> applies a method to it.
  \<open>batches\<close> lists the calls of \<^verbatim>\<open>sendBatch\<close> the wrapper has made, with their arguments.
\<close>

record trace_wrapper =
  tracer :: tracer
  waitUntilUsed :: bool
  settler :: coordinator
  batches :: "(obj list \<times> real option) list"

definition on_waitUntilSpan :: "(span \<Rightarrow> span) \<Rightarrow> tracer \<Rightarrow> tracer" where
  "on_waitUntilSpan f t =
     t\<lparr>self := Span (span_data (self t)) (eventMeta (self t))
                 (case childSpans (self t) of [] \<Rightarrow> [] | c # cs \<Rightarrow> f c # cs)\<rparr>"

text \<open>The constructor, up to the call of the listener; the two clock readings are those of
  the two \<^verbatim>\<open>Span\<close> constructors.\<close>

definition new_TraceWrapper :: "request option \<Rightarrow> config \<Rightarrow> int \<Rightarrow> int \<Rightarrow> trace_wrapper" where
  "new_TraceWrapper request cfg now0 now1 =
     (let t = new_RequestTracer request cfg now0;
          (waitUntilSpan, root) = startChildSpan (self t) (JStr ''waitUntil'') (JStr ''worker'') now1
      in \<lparr>tracer = t\<lparr>self := root\<rparr>, waitUntilUsed = False, settler = new_coordinator,
          batches = []\<rparr>)"

text \<open>\<^verbatim>\<open>TraceWrapper.sendEvents()\<close>, up to the call of \<^verbatim>\<open>tracer.sendEvents\<close>.\<close>

definition TraceWrapper_sendEvents ::
  "trace_wrapper \<Rightarrow> real \<Rightarrow> js_error + (obj list \<times> real option) option" where
  "TraceWrapper_sendEvents tw random =
     (let excludes = (if waitUntilUsed tw then [] else [''waitUntil''])
      in sendEvents (tracer tw) (Some excludes) random)"

definition startWaitUntil :: "trace_wrapper \<Rightarrow> int \<Rightarrow> trace_wrapper" where
  "startWaitUntil tw now =
     tw\<lparr>waitUntilUsed := True, tracer := on_waitUntilSpan (\<lambda>s. start s now) (tracer tw)\<rparr>"

text \<open>
  \<^verbatim>\<open>finishWaitUntil(error)\<close>. The argument of the first \<^verbatim>\<open>addData\<close> holds
  \<^verbatim>\<open>error.toString()\<close>: where that call throws, the method is left before any data is added.
\<close>

definition finishWaitUntil :: "trace_wrapper \<Rightarrow> jsval \<Rightarrow> js_error + trace_wrapper" where
  "finishWaitUntil tw error =
     (if truthy error
      then
        bindE (call_toString error) (\<lambda>waitUtilException.
          let t1 = (tracer tw)\<lparr>self := addData (self (tracer tw))
                       [(''exception'', JBool True),
                        (''waitUtilException'', JStr waitUtilException)]\<rparr>;
              t2 = on_waitUntilSpan (\<lambda>s. addData s [(''exception'', error)]) t1;
              t3 = (if truthy (read_prop error ''stack'')
                    then on_waitUntilSpan
                           (\<lambda>s. addData s [(''stacktrace'', read_prop error ''stack'')]) t2
                    else t2)
          in Inr (tw\<lparr>tracer := t3\<rparr>))
      else Inr tw)"

text \<open>
  The \<^verbatim>\<open>apply\<close> traps of the two proxies, up to the registration with the coordinator. The
  result is the exception \<^verbatim>\<open>addPromise\<close> throws to the caller, if any, and the wrapper after
  the call. The promise \<^verbatim>\<open>respondWith\<close> registers is new, hence pending.
\<close>

definition waitUntil_apply :: "trace_wrapper \<Rightarrow> pstate \<Rightarrow> int \<Rightarrow> js_error option \<times> trace_wrapper" where
  "waitUntil_apply tw promise now =
     (let tw1 = startWaitUntil tw now;
          (thrown, st) = addPromise (settler tw1) promise
      in (thrown, tw1\<lparr>settler := st\<rparr>))"

definition respondWith_apply :: "trace_wrapper \<Rightarrow> js_error option \<times> trace_wrapper" where
  "respondWith_apply tw =
     (let (thrown, st) = addPromise (settler tw) Pending
      in (thrown, tw\<lparr>settler := st\<rparr>))"

text \<open>
  The callback the wrapper gives to its coordinator as \<^verbatim>\<open>finished\<close>: the waitUntil span is
  finished and the events are sent. A call of \<^verbatim>\<open>sendBatch\<close> is recorded in \<open>batches\<close>.
\<close>

definition settled_callback :: "trace_wrapper \<Rightarrow> int \<Rightarrow> real \<Rightarrow> trace_wrapper" where
  "settled_callback tw now random =
     (let tw1 = tw\<lparr>tracer := on_waitUntilSpan (\<lambda>s. finish s now) (tracer tw)\<rparr>
      in case TraceWrapper_sendEvents tw1 random of
           Inr (Some call) \<Rightarrow> tw1\<lparr>batches := batches tw1 @ [call]\<rparr>
         | _ \<Rightarrow> tw1)"

text \<open>
  The \<^verbatim>\<open>catch\<close> block of \<^verbatim>\<open>setUpRespondWith\<close>: \<^verbatim>\<open>this.tracer.finishResponse(undefined, err)\<close>.
  An error thrown there leaves the block: the result is that error, if any, and the wrapper
  after the block.
\<close>

definition catch_listener_error ::
  "trace_wrapper \<Rightarrow> jsval \<Rightarrow> int \<Rightarrow> js_error option \<times> trace_wrapper" where
  "catch_listener_error tw err now =
     (case finishResponse (tracer tw) None err JUndefined now of
        Inr t \<Rightarrow> (None, tw\<lparr>tracer := t\<rparr>)
      | Inl e \<Rightarrow> (Some e, tw))"

text \<open>
  \<^verbatim>\<open>setUpRespondWith()\<close>. The listener is the user's handler: it may use the wrapper through
  the proxies and the tracer, and it returns or throws; \<open>listener tw\<close> is the wrapper as the
  handler leaves it and the value it threw, if any. The result is the error thrown out of
  \<^verbatim>\<open>setUpRespondWith\<close>, and so out of the constructor to the host, if any, and the wrapper
  after it.
\<close>

definition setUpRespondWith ::
  "trace_wrapper \<Rightarrow> (trace_wrapper \<Rightarrow> trace_wrapper \<times> jsval option) \<Rightarrow> int \<Rightarrow>
   js_error option \<times> trace_wrapper" where
  "setUpRespondWith tw listener now =
     (case listener tw of
        (tw1, None) \<Rightarrow> (None, tw1)
      | (tw1, Some err) \<Rightarrow> catch_listener_error tw1 err now)"

subsection \<open>The life of a request\<close>

text \<open>
  What can happen to the wrapper of a request once it is constructed: the handler calls
  \<^verbatim>\<open>event.waitUntil\<close> or \<^verbatim>\<open>event.respondWith\<close> or a method of the tracer, or throws; a
  registered promise settles; the callbacks installed on the background promise and on the
  response run; a join callback of the coordinator runs. The order is that of the list,
  with no constraint beyond what each step needs: a promise settles once, a join runs when
  its promises have settled. A callback that throws leaves the wrapper as it was when the
  exception was thrown.
\<close>

datatype tw_event =
    WaitUntil pstate int
  | RespondWith
  | HandlerThrew jsval int
  | TracerAddData obj
  | TracerSetSampleRate "real option"
  | TracerStartChildSpan jsval jsval int
  | PromiseSettles nat outcome
  | FinishWaitUntil jsval
  | ResponseFinishes "response option" jsval jsval int
  | JoinRuns nat int real

fun tw_step :: "trace_wrapper \<Rightarrow> tw_event \<Rightarrow> trace_wrapper option" where
  "tw_step tw (WaitUntil p now) = Some (snd (waitUntil_apply tw p now))"
| "tw_step tw RespondWith = Some (snd (respondWith_apply tw))"
| "tw_step tw (HandlerThrew err now) = Some (snd (catch_listener_error tw err now))"
| "tw_step tw (TracerAddData patch) =
     Some (tw\<lparr>tracer := (tracer tw)\<lparr>self := addData (self (tracer tw)) patch\<rparr>\<rparr>)"
| "tw_step tw (TracerSetSampleRate r) = Some (tw\<lparr>tracer := setSampleRate (tracer tw) r\<rparr>)"
| "tw_step tw (TracerStartChildSpan n sv now) =
     Some (tw\<lparr>tracer := (tracer tw)\<lparr>self := snd (startChildSpan (self (tracer tw)) n sv now)\<rparr>\<rparr>)"
| "tw_step tw (PromiseSettles i out) =
     map_option (\<lambda>st. tw\<lparr>settler := st\<rparr>) (cstep (settler tw) (Settle i out))"
| "tw_step tw (FinishWaitUntil error) =
     Some (case finishWaitUntil tw error of Inr tw1 \<Rightarrow> tw1 | Inl e \<Rightarrow> tw)"
| "tw_step tw (ResponseFinishes response error body now) =
     Some (case finishResponse (tracer tw) response error body now of
             Inr t \<Rightarrow> tw\<lparr>tracer := t\<rparr>
           | Inl e \<Rightarrow> tw)"
| "tw_step tw (JoinRuns k now random) =
     (if join_ready (settler tw) k
      then
        let st = join_callback (settler tw) k;
            tw1 = tw\<lparr>settler := st\<rparr>
        in Some (if length (finished_calls st) > length (finished_calls (settler tw))
                 then settled_callback tw1 now random else tw1)
      else None)"

fun tw_run :: "trace_wrapper \<Rightarrow> tw_event list \<Rightarrow> trace_wrapper option" where
  "tw_run tw [] = Some tw"
| "tw_run tw (e # es) = (case tw_step tw e of None \<Rightarrow> None | Some tw1 \<Rightarrow> tw_run tw1 es)"

text \<open>
  The calls of the intercepted \<^verbatim>\<open>event.waitUntil\<close>, and the calls that register a promise with
  the coordinator.
\<close>

definition is_WaitUntil :: "tw_event \<Rightarrow> bool" where
  "is_WaitUntil e = (case e of WaitUntil p now \<Rightarrow> True | _ \<Rightarrow> False)"

definition is_registration :: "tw_event \<Rightarrow> bool" where
  "is_registration e = (case e of WaitUntil p now \<Rightarrow> True | RespondWith \<Rightarrow> True | _ \<Rightarrow> False)"

text \<open>
  The first child of the tracer is the span named \<^verbatim>\<open>waitUntil\<close>, and its data has no
  \<^verbatim>\<open>request\<close>.
\<close>

definition has_waitUntilSpan :: "tracer \<Rightarrow> bool" where
  "has_waitUntilSpan t =
     (case childSpans (self t) of
        [] \<Rightarrow> False
      | c # cs \<Rightarrow> name (eventMeta c) = JStr ''waitUntil'' \<and> ''request'' \<notin> fst ` set (span_data c))"

text \<open>
  A wrapper is good when the first child of its tracer is the waitUntil span, without
  request data, no span has a trace context, and the data of the root span is an object: no
  property twice.
\<close>

definition good :: "trace_wrapper \<Rightarrow> bool" where
  "good tw =
     (has_waitUntilSpan (tracer tw) \<and> no_trace (self (tracer tw)) \<and>
      distinct (map fst (span_data (self (tracer tw)))))"

text \<open>The names of the events of a list.\<close>

definition event_names :: "obj list \<Rightarrow> jsval list" where
  "event_names events = map (\<lambda>event. obj_get event ''name'') events"

section \<open>Examples\<close>

text \<open>
  A configuration whose \<^verbatim>\<open>sampleRates\<close> is a table, the request
  \<^verbatim>\<open>GET https://a.example.com/foo\<close>, a response, and the wrapper of that request.
\<close>

definition table_config :: config where
  "table_config = resolve \<lparr>cfg_acceptTraceContext = None, cfg_token = None, cfg_app_name = None,
     cfg_data = None, cfg_redactRequestHeaders = None, cfg_redactResponseHeaders = None,
     cfg_sampleRates = Some (RateTable [(''exception'', 5), (''2xx'', 10)]),
     cfg_sendTraceContext = None, cfg_serviceName = None\<rparr>"

definition get_foo :: request where
  "get_foo = \<lparr>req_headers = Some [(''Authorization'', ''Bearer xyz''), (''Host'', ''a.example.com'')],
     req_method = ''GET'', req_redirect = ''follow'', req_referrer = '''', req_referrerPolicy = '''',
     req_url = ''https://a.example.com/foo''\<rparr>"

definition ok_response :: response where
  "ok_response = \<lparr>res_headers = Some [(''Set-Cookie'', ''id=1'')], res_ok = True,
     res_redirected = False, res_status = 200, res_statusText = ''OK'',
     res_url = ''https://a.example.com/foo''\<rparr>"

definition example_wrapper :: trace_wrapper where
  "example_wrapper = new_TraceWrapper (Some get_foo) table_config 100 101"

text \<open>
  The tracer of that request after \<^verbatim>\<open>finishResponse(undefined, Error("boom"))\<close>.
\<close>

definition errored_tracer :: tracer where
  "errored_tracer =
     (case finishResponse (new_RequestTracer (Some get_foo) table_config 100)
             None (JErr ''Error'' ''boom'' ''at handler'') JUndefined 130 of
        Inr t \<Rightarrow> t
      | Inl e \<Rightarrow> new_RequestTracer (Some get_foo) table_config 100)"

text \<open>
  Handlers that throw at once, before they call \<^verbatim>\<open>event.respondWith\<close> or \<^verbatim>\<open>event.waitUntil\<close>:
  one throws \<^verbatim>\<open>Error("boom")\<close>, one \<^verbatim>\<open>null\<close>, one the object \<^verbatim>\<open>{toString: 1}\<close>. \<open>after_throw\<close> is
  the wrapper after \<^verbatim>\<open>setUpRespondWith\<close> with the first.
\<close>

definition throwing_listener :: "trace_wrapper \<Rightarrow> trace_wrapper \<times> jsval option" where
  "throwing_listener tw = (tw, Some (JErr ''Error'' ''boom'' ''at handler''))"

definition null_listener :: "trace_wrapper \<Rightarrow> trace_wrapper \<times> jsval option" where
  "null_listener tw = (tw, Some JNull)"

definition odd_listener :: "trace_wrapper \<Rightarrow> trace_wrapper \<times> jsval option" where
  "odd_listener tw = (tw, Some (JObj [(''toString'', JNum 1)]))"

definition after_throw :: trace_wrapper where
  "after_throw = snd (setUpRespondWith example_wrapper throwing_listener 130)"

text \<open>
  Two lives of a request, without and with a background task, up to the join callback
  that makes the wrapper call \<^verbatim>\<open>sendBatch\<close>; the arguments of that call; and what
  \<^verbatim>\<open>sendBatch\<close> makes of the event list.
\<close>

definition run_without :: "tw_event list" where
  "run_without = [RespondWith, ResponseFinishes (Some ok_response) JNull JUndefined 120,
      PromiseSettles 0 Fulfilled]"

definition run_with :: "tw_event list" where
  "run_with = [WaitUntil Pending 105, RespondWith,
      ResponseFinishes (Some ok_response) JNull JUndefined 120,
      PromiseSettles 1 Fulfilled, PromiseSettles 0 Fulfilled]"

definition last_batch :: "tw_event list \<Rightarrow> tw_event \<Rightarrow> obj list \<times> real option" where
  "last_batch es e = last (batches (the (tw_step (the (tw_run example_wrapper es)) e)))"

definition sent_without :: "js_error + jsval" where
  "sent_without =
     sendBatch (config (tracer example_wrapper)) (\<lambda>u. Some ''/foo'')
       (fst (last_batch run_without (JoinRuns 1 130 0)))"

definition sent_with :: "js_error + jsval" where
  "sent_with =
     sendBatch (config (tracer example_wrapper)) (\<lambda>u. Some ''/foo'')
       (fst (last_batch run_with (JoinRuns 2 130 0)))"

section \<open>Properties of objects and strings\<close>

lemma map_of_obj_set: "map_of (obj_set kvs k v) = (map_of kvs)(k \<mapsto> v)"
  by (induction kvs) (auto simp: fun_eq_iff)

lemma obj_get_obj_set: "obj_get (obj_set kvs k v) k' = (if k' = k then v else obj_get kvs k')"
  by (simp add: obj_get_def map_of_obj_set)

lemma keys_obj_set: "fst ` set (obj_set kvs k v) = insert k (fst ` set kvs)"
  by (simp add: dom_map_of_conv_image_fst [symmetric] map_of_obj_set)

lemma obj_get_assign_other:
  "k \<notin> fst ` set src \<Longrightarrow> obj_get (object_assign tgt src) k = obj_get tgt k"
  unfolding object_assign_def
  by (induction src arbitrary: tgt) (auto simp: obj_get_obj_set)

lemma map_of_zip_range: "map_of (zip xs ys) c = Some l \<Longrightarrow> l \<in> set ys"
  by (drule map_of_SomeD) (rule set_zip_rightD)

lemma map_of_zip_None: "c \<notin> set xs \<Longrightarrow> map_of (zip xs ys) c = None"
  by (simp add: map_of_eq_None_iff) (metis fst_conv imageE set_zip_leftD surj_pair)

lemma lower_char_cases: "lower_char c = c \<or> lower_char c \<in> set ''abcdefghijklmnopqrstuvwxyz''"
proof (cases "map_of (zip ''ABCDEFGHIJKLMNOPQRSTUVWXYZ'' ''abcdefghijklmnopqrstuvwxyz'') c")
  case None
  then have "lower_char c = c" by (simp only: lower_char_def option.case)
  then show ?thesis by (rule disjI1)
next
  case (Some l)
  then have "l \<in> set ''abcdefghijklmnopqrstuvwxyz''"
    by (rule map_of_zip_range)
  moreover have "lower_char c = l" using Some by (simp only: lower_char_def option.case)
  ultimately show ?thesis by (simp only: simp_thms)
qed

lemma lower_char_fix: "c \<in> set ''abcdefghijklmnopqrstuvwxyz'' \<Longrightarrow> lower_char c = c"
proof -
  assume a: "c \<in> set ''abcdefghijklmnopqrstuvwxyz''"
  have "set ''abcdefghijklmnopqrstuvwxyz'' \<inter> set ''ABCDEFGHIJKLMNOPQRSTUVWXYZ'' = {}"
    by simp
  with a have "c \<notin> set ''ABCDEFGHIJKLMNOPQRSTUVWXYZ''" by blast
  then have "map_of (zip ''ABCDEFGHIJKLMNOPQRSTUVWXYZ'' ''abcdefghijklmnopqrstuvwxyz'') c = None"
    by (rule map_of_zip_None)
  then show ?thesis by (simp only: lower_char_def option.case)
qed

lemma lower_char_idem: "lower_char (lower_char c) = lower_char c"
proof -
  from lower_char_cases [of c] show ?thesis
  proof
    assume "lower_char c = c" then show ?thesis by (simp only:)
  next
    assume "lower_char c \<in> set ''abcdefghijklmnopqrstuvwxyz''"
    then show ?thesis by (rule lower_char_fix)
  qed
qed

lemma toLowerCase_idem: "toLowerCase (toLowerCase s) = toLowerCase s"
  by (simp add: toLowerCase_def lower_char_idem)

lemma to_event_meta:
  "obj_get (object_assign d (meta_entries m)) ''timestamp'' = JNum (timestamp m)"
  "obj_get (object_assign d (meta_entries m)) ''name'' = name m"
  "obj_get (object_assign d (meta_entries m)) ''trace'' = trace m"
  "obj_get (object_assign d (meta_entries m)) ''service_name'' = service_name m"
  "obj_get (object_assign d (meta_entries m)) ''duration_ms'' =
     (case duration_ms m of Some x \<Rightarrow> JNum x | None \<Rightarrow> obj_get d ''duration_ms'')"
  by (simp_all add: object_assign_def meta_entries_def obj_get_obj_set split: option.splits)


section \<open>Post-settlement registration\<close>

text \<open>
  C4: once the completion callback has fired (\<open>allSettled\<close> is true), \<open>addPromise\<close> throws
  \<^verbatim>\<open>Error('All promises have already been settled!')\<close> and leaves the coordinator as it was.
\<close>

theorem addPromise_after_settled:
  "allSettled c \<Longrightarrow> addPromise c p = (Some (Error ''All promises have already been settled!''), c)"
  by (simp add: addPromise_def already_settled_def)

theorem addPromise_after_settled_witness:
  "allSettled \<lparr>promises = [Settled Fulfilled], allSettled = True, joins = [],
              finished_calls = [[Settled Fulfilled]]\<rparr> \<and>
   addPromise \<lparr>promises = [Settled Fulfilled], allSettled = True, joins = [],
              finished_calls = [[Settled Fulfilled]]\<rparr> Pending =
     (Some (Error ''All promises have already been settled!''),
      \<lparr>promises = [Settled Fulfilled], allSettled = True, joins = [],
       finished_calls = [[Settled Fulfilled]]\<rparr>)"
  using addPromise_after_settled
    [of "\<lparr>promises = [Settled Fulfilled], allSettled = True, joins = [],
          finished_calls = [[Settled Fulfilled]]\<rparr>" Pending]
  by simp

section \<open>The coordinator fires once, after everything has settled\<close>

lemma cinv_new: "cinv new_coordinator"
  by (simp add: cinv_def new_coordinator_def)

lemma cinv_add: "cinv c \<Longrightarrow> addPromise c p = (None, c') \<Longrightarrow> cinv c'"
  by (auto simp: cinv_def addPromise_def Let_def le_SucI split: if_splits) fastforce+

lemma cinv_settle:
  "cinv c \<Longrightarrow> i < length (promises c) \<Longrightarrow> promises c ! i = Pending \<Longrightarrow>
   cinv (c\<lparr>promises := (promises c)[i := Settled out]\<rparr>)"
  by (auto simp: cinv_def dest: nth_mem)

lemma cinv_join: "cinv c \<Longrightarrow> join_ready c k \<Longrightarrow> cinv (join_callback c k)"
  by (auto simp: cinv_def join_callback_def join_ready_def Let_def split: if_splits)

lemma cinv_step: "cinv c \<Longrightarrow> cstep c e = Some c' \<Longrightarrow> cinv c'"
  by (cases e) (auto simp: cinv_add cinv_settle cinv_join split: option.splits prod.splits if_splits)

lemma cinv_run: "cinv c \<Longrightarrow> crun c es = Some c' \<Longrightarrow> cinv c'"
  by (induction es arbitrary: c) (auto split: option.splits intro: cinv_step)

text \<open>
  Once every tracked promise has settled, a join callback that has not run yet can run: a
  run that is not over can go on.
\<close>

lemma join_can_run:
  "cinv c \<Longrightarrow> Pending \<notin> set (promises c) \<Longrightarrow> joins c \<noteq> [] \<Longrightarrow>
   cstep c (Join (hd (joins c))) = Some (join_callback c (hd (joins c)))"
  by (auto simp: join_ready_def dest: in_set_takeD)

text \<open>
  C1, as amended. Take any sequence of registrations, settlements and join callbacks that
  can happen from a new coordinator, no registration being attempted once the coordinator
  has settled. In the state it leads to:
  \<^item> \<^verbatim>\<open>finished\<close> has been called at most once;
  \<^item> if it has been called, no tracked promise is pending, and the results it was given are
    those of all promises ever registered;
  \<^item> if the run is over (all promises settled, all join callbacks run) and at least one
    promise was registered, \<^verbatim>\<open>finished\<close> has been called exactly once.

  The claim as stated also covers the empty sequence of registrations; there \<^verbatim>\<open>finished\<close> is
  never called, since only \<^verbatim>\<open>addPromise\<close> installs a join.
\<close>

theorem finished_exactly_once:
  "crun new_coordinator es = Some c \<Longrightarrow>
     length (finished_calls c) \<le> 1 \<and>
     (finished_calls c \<noteq> [] \<longrightarrow>
        Pending \<notin> set (promises c) \<and> finished_calls c = [promises c]) \<and>
     (quiescent c \<and> promises c \<noteq> [] \<longrightarrow> length (finished_calls c) = 1)"
proof -
  assume "crun new_coordinator es = Some c"
  with cinv_new have inv: "cinv c" by (rule cinv_run)
  have "length (finished_calls c) \<le> 1"
    using inv by (auto simp: cinv_def split: if_splits)
  moreover have "finished_calls c \<noteq> [] \<longrightarrow>
      Pending \<notin> set (promises c) \<and> finished_calls c = [promises c]"
    using inv by (auto simp: cinv_def split: if_splits)
  moreover have "quiescent c \<and> promises c \<noteq> [] \<longrightarrow> length (finished_calls c) = 1"
    using inv by (auto simp: cinv_def quiescent_def split: if_splits)
  ultimately show ?thesis by blast
qed

theorem finished_exactly_once_witness:
  "crun new_coordinator
     [Add Pending, Add Pending, Settle 0 Fulfilled, Join 1, Add (Settled Fulfilled),
      Settle 1 Rejected, Join 3, Join 2] =
     Some \<lparr>promises = [Settled Fulfilled, Settled Rejected, Settled Fulfilled],
           allSettled = True, joins = [],
           finished_calls = [[Settled Fulfilled, Settled Rejected, Settled Fulfilled]]\<rparr> \<and>
   quiescent \<lparr>promises = [Settled Fulfilled, Settled Rejected, Settled Fulfilled],
           allSettled = True, joins = [],
           finished_calls = [[Settled Fulfilled, Settled Rejected, Settled Fulfilled]]\<rparr> \<and>
   length (finished_calls \<lparr>promises = [Settled Fulfilled, Settled Rejected, Settled Fulfilled],
           allSettled = True, joins = [],
           finished_calls = [[Settled Fulfilled, Settled Rejected, Settled Fulfilled]]\<rparr>) = 1"
  using finished_exactly_once
    [of "[Add Pending, Add Pending, Settle 0 Fulfilled, Join 1, Add (Settled Fulfilled),
          Settle 1 Rejected, Join 3, Join 2]"
        "\<lparr>promises = [Settled Fulfilled, Settled Rejected, Settled Fulfilled],
           allSettled = True, joins = [],
           finished_calls = [[Settled Fulfilled, Settled Rejected, Settled Fulfilled]]\<rparr>"]
  by (simp add: new_coordinator_def addPromise_def join_ready_def join_callback_def
        quiescent_def)

text \<open>
  With no registration at all the run is over at once and \<^verbatim>\<open>finished\<close> has not been called.
\<close>

theorem no_registration_counterexample:
  "crun new_coordinator [] = Some new_coordinator \<and> quiescent new_coordinator \<and>
   length (finished_calls new_coordinator) \<noteq> 1"
  by (simp add: new_coordinator_def quiescent_def)

section \<open>Event metadata and span data\<close>




section \<open>Header redaction\<close>


lemma distinct_obj_set: "distinct (map fst kvs) \<Longrightarrow> distinct (map fst (obj_set kvs k v))"
  by (induction kvs) (auto simp: keys_obj_set [simplified] image_iff)













text \<open>The redact lists of a resolved configuration are lower-cased.\<close>

lemma resolve_lower_cased:
  "h \<in> set (redactRequestHeaders (resolve cfg)) \<union> set (redactResponseHeaders (resolve cfg))
   \<Longrightarrow> toLowerCase h = h"
  by (auto simp: resolve_def Let_def toLowerCase_idem)




section \<open>Flattening is a pre-order traversal\<close>

lemma events_paths:
  "map Some (parseToEvents s) = map (event_at s) (paths s)"
  "length pre = i \<Longrightarrow>
     map Some (concat (map parseToEvents cs)) =
     map (event_at (Span d m (pre @ cs))) (paths_from i cs)"
proof (induction s and i cs arbitrary: and pre d m rule: paths_paths_from.induct)
  case (1 d m cs)
  from "1.IH" [of "[]" d m] show ?case
    by (simp add: event_at_def to_event_def)
next
  case (2 i)
  show ?case by simp
next
  case (3 i c cs)
  have a: "map (event_at (Span d m (pre @ c # cs))) (map ((#) i) (paths c)) =
        map (event_at c) (paths c)"
    using "3.prems" by (simp add: event_at_def comp_def nth_append)
  have b: "map Some (concat (map parseToEvents cs)) =
        map (event_at (Span d m ((pre @ [c]) @ cs))) (paths_from (Suc i) cs)"
    using "3.prems" by (intro "3.IH"(2)) simp
  show ?case using a b "3.IH"(1) by simp
qed

lemma set_paths:
  "set (paths s) = {p. span_at s p \<noteq> None}"
  "set (paths_from i cs) =
     {j # p | j p. i \<le> j \<and> j < i + length cs \<and> span_at (cs ! (j - i)) p \<noteq> None}"
proof (induction s and i cs rule: paths_paths_from.induct)
  case (1 d m cs)
  show ?case
  proof (rule set_eqI)
    fix p show "p \<in> set (paths (Span d m cs)) \<longleftrightarrow> p \<in> {p. span_at (Span d m cs) p \<noteq> None}"
      using 1 by (cases p) auto
  qed
next
  case (2 i)
  show ?case by simp
next
  case (3 i c cs)
  show ?case
  proof (rule set_eqI)
    fix q
    show "q \<in> set (paths_from i (c # cs)) \<longleftrightarrow>
          q \<in> {j # p | j p. i \<le> j \<and> j < i + length (c # cs) \<and> span_at ((c # cs) ! (j - i)) p \<noteq> None}"
    proof (cases q)
      case Nil
      then show ?thesis using 3 by auto
    next
      case (Cons j p)
      show ?thesis
      proof (cases "j = i")
        case True
        then show ?thesis using 3 Cons by auto
      next
        case False
        then have "(c # cs) ! (j - i) = cs ! (j - Suc i)" if "i \<le> j"
          using that by (simp add: nth_Cons split: nat.splits) (metis Suc_diff_Suc diff_Suc_Suc le_neq_implies_less nat.inject)
        then show ?thesis using 3 Cons False by auto
      qed
    qed
  qed
qed

lemma path_less_Cons: "path_less (i # p) (j # q) \<longleftrightarrow> i < j \<or> (i = j \<and> path_less p q)"
  by (auto simp: path_less_def)

lemma path_less_Nil: "path_less [] (j # q)"
  by (simp add: path_less_def)

lemma sorted_paths:
  "sorted_wrt path_less (paths s)"
  "sorted_wrt path_less (paths_from i cs)"
proof (induction s and i cs rule: paths_paths_from.induct)
  case (1 d m cs)
  have "\<forall>q \<in> set (paths_from 0 cs). path_less [] q"
    by (auto simp: set_paths(2) path_less_Nil)
  with 1 show ?case by simp
next
  case (2 i)
  show ?case by simp
next
  case (3 i c cs)
  have "sorted_wrt path_less (map ((#) i) (paths c))"
    using "3.IH"(1) by (simp add: sorted_wrt_map path_less_Cons)
  moreover have "\<forall>x \<in> set (map ((#) i) (paths c)). \<forall>y \<in> set (paths_from (Suc i) cs). path_less x y"
    by (auto simp: set_paths(2) path_less_Cons)
  ultimately show ?case using "3.IH"(2) by (simp add: sorted_wrt_append)
qed

lemma length_parseToEvents: "length (parseToEvents s) = count_spans s"
  by (induction s) (simp add: length_concat comp_def cong: map_cong)


text \<open>
  C8: \<open>parseToEvents\<close> yields one event per span, the event of the span at each position of
  the tree, and the positions come in strictly increasing lexicographic order: the event of
  a span precedes those of its descendants, and the subtrees of the children follow one
  another in the order of \<^verbatim>\<open>childSpans\<close>. A root with children \<open>A\<close>, \<open>B\<close>, where \<open>A\<close> has the
  child \<open>A1\<close>, flattens to the events of root, \<open>A\<close>, \<open>A1\<close>, \<open>B\<close>.
\<close>

theorem parseToEvents_preorder:
  "map Some (parseToEvents s) = map (event_at s) (paths s) \<and>
   set (paths s) = {p. span_at s p \<noteq> None} \<and>
   sorted_wrt path_less (paths s) \<and>
   length (parseToEvents s) = count_spans s \<and>
   parseToEvents (Span dr mr [Span da ma [Span da1 ma1 []], Span db mb []]) =
     [to_event (Span dr mr [Span da ma [Span da1 ma1 []], Span db mb []]),
      to_event (Span da ma [Span da1 ma1 []]),
      to_event (Span da1 ma1 []),
      to_event (Span db mb [])]"
  by (simp add: events_paths(1) set_paths(1) sorted_paths(1) length_parseToEvents to_event_def)

theorem parseToEvents_preorder_witness:
  "paths (named_span ''root'' [named_span ''A'' [named_span ''A1'' []], named_span ''B'' []]) =
     [[], [0], [0, 0], [1]] \<and>
   path_less [0, 0] [1] \<and>
   span_at (named_span ''root'' [named_span ''A'' [named_span ''A1'' []], named_span ''B'' []])
     [0, 0] = Some (named_span ''A1'' []) \<and>
   map (\<lambda>e. obj_get e ''name'')
     (parseToEvents
        (named_span ''root'' [named_span ''A'' [named_span ''A1'' []], named_span ''B'' []])) =
     [JStr ''root'', JStr ''A'', JStr ''A1'', JStr ''B'']"
  using parseToEvents_preorder
    [of "named_span ''root'' [named_span ''A'' [named_span ''A1'' []], named_span ''B'' []]"]
  by (simp add: named_span_def path_less_def object_assign_def meta_entries_def obj_get_def)

section \<open>Sampling\<close>

text \<open>
  With a table and no override, \<open>getSampleRate\<close> on data without a response reads
  \<^verbatim>\<open>data.response.status\<close> of \<^verbatim>\<open>undefined\<close>.
\<close>

lemma getSampleRate_table_no_response:
  "sampleRate t = None \<Longrightarrow> sampleRates (config t) = RateTable tab \<Longrightarrow>
   obj_get d ''response'' = JUndefined \<Longrightarrow> getSampleRate t d = Inl TypeError"
  by (simp add: getSampleRate_def get_prop_def bindE_def)

text \<open>
  C2: a tracer with a table of sample rates and no override, finished with an error and no
  response. Its data has no \<^verbatim>\<open>response\<close>, and \<open>getSampleRate\<close> throws a TypeError where the
  claim has it return the table's \<^verbatim>\<open>exception\<close> entry.
\<close>

theorem getSampleRate_no_response_throws:
  "finishResponse (new_RequestTracer (Some get_foo) table_config 100)
     None (JErr ''Error'' ''boom'' ''at handler'') JUndefined 130 = Inr errored_tracer \<and>
   obj_get (span_data (self errored_tracer)) ''response'' = JUndefined \<and>
   getSampleRate errored_tracer (span_data (self errored_tracer)) = Inl TypeError"
  by (simp add: errored_tracer_def getSampleRate_def finishResponse_def call_toString_def
      new_RequestTracer_def table_config_def
      resolve_def or_default_def new_Span_def addRequest_def addData_def finish_def get_foo_def
      object_assign_def obj_get_def get_prop_def bindE_def Let_def)

text \<open>
  C3: let the effective sample rate, the value \<open>getSampleRate\<close> returns, be exactly 1, or
  \<^verbatim>\<open>undefined\<close>, or a number below 1 (0 included). For every value of \<^verbatim>\<open>Math.random()\<close>,
  \<open>sendEvents\<close> calls \<^verbatim>\<open>sendBatch\<close>, with the filtered events, when the rate is 1, and does not
  call it otherwise.
\<close>

theorem sendEvents_sampling:
  "0 \<le> random \<Longrightarrow> random < 1 \<Longrightarrow> getSampleRate t (span_data (self t)) = Inr rate \<Longrightarrow>
   rate = Some 1 \<or> rate = None \<or> (\<exists>r. rate = Some r \<and> r < 1) \<Longrightarrow>
   sendEvents t excludeSpans random =
     Inr (if rate = Some 1
          then Some (filter (\<lambda>event. case excludeSpans of
                                        Some ex \<Rightarrow> obj_get event ''name'' \<notin> JStr ` set ex
                                      | None \<Rightarrow> True)
                       (parseToEvents (self t)), Some 1)
          else None)"
  by (auto simp: sendEvents_def bindE_def)

theorem sendEvents_sampling_witness:
  "(0::real) \<le> 1 / 2 \<and> (1::real) / 2 < 1 \<and>
   getSampleRate (setSampleRate (new_RequestTracer (Some get_foo) table_config 100) (Some 1))
     (span_data (self (setSampleRate (new_RequestTracer (Some get_foo) table_config 100) (Some 1))))
     = Inr (Some 1) \<and>
   sendEvents (setSampleRate (new_RequestTracer (Some get_foo) table_config 100) (Some 1))
     (Some [''waitUntil'']) (1 / 2) =
     Inr (Some (filter (\<lambda>event. obj_get event ''name'' \<notin> JStr ` set [''waitUntil''])
                  (parseToEvents (self (setSampleRate
                     (new_RequestTracer (Some get_foo) table_config 100) (Some 1)))), Some 1)) \<and>
   getSampleRate (setSampleRate (new_RequestTracer (Some get_foo) table_config 100) (Some 0))
     (span_data (self (setSampleRate (new_RequestTracer (Some get_foo) table_config 100) (Some 0))))
     = Inr (Some 0) \<and>
   sendEvents (setSampleRate (new_RequestTracer (Some get_foo) table_config 100) (Some 0))
     (Some [''waitUntil'']) (1 / 2) = Inr None"
  using
    sendEvents_sampling
      [of "1 / 2" "setSampleRate (new_RequestTracer (Some get_foo) table_config 100) (Some 1)"
          "Some 1" "Some [''waitUntil'']"]
    sendEvents_sampling
      [of "1 / 2" "setSampleRate (new_RequestTracer (Some get_foo) table_config 100) (Some 0)"
          "Some 0" "Some [''waitUntil'']"]
  by (simp add: getSampleRate_def setSampleRate_def)

section \<open>What every wrapper of a request satisfies\<close>

lemma name_to_event: "obj_get (to_event s) ''name'' = name (eventMeta s)"
  by (simp add: to_event_def to_event_meta)

lemma parseToEvents_unfold:
  "parseToEvents s = to_event s # concat (map parseToEvents (childSpans s))"
  by (cases s) (simp add: to_event_def)

lemma keys_object_assign:
  "fst ` set (object_assign tgt src) = fst ` set tgt \<union> fst ` set src"
  unfolding object_assign_def
  by (induction src arbitrary: tgt) (simp_all add: keys_obj_set split_beta)

lemma distinct_object_assign:
  "distinct (map fst tgt) \<Longrightarrow> distinct (map fst (object_assign tgt src))"
  unfolding object_assign_def
  by (induction src arbitrary: tgt) (auto simp: distinct_obj_set)

lemma no_trace_iff:
  "no_trace s = (trace (eventMeta s) = JUndefined \<and> (\<forall>c \<in> set (childSpans s). no_trace c))"
  by (cases s) simp

lemma span_simps:
  "childSpans (addData s p) = childSpans s"
  "childSpans (finish s now) = childSpans s"
  "childSpans (start s now) = childSpans s"
  "name (eventMeta (addData s p)) = name (eventMeta s)"
  "name (eventMeta (finish s now)) = name (eventMeta s)"
  "name (eventMeta (start s now)) = name (eventMeta s)"
  "trace (eventMeta (addData s p)) = trace (eventMeta s)"
  "trace (eventMeta (finish s now)) = trace (eventMeta s)"
  "trace (eventMeta (start s now)) = trace (eventMeta s)"
  "span_data (addData s p) = object_assign (span_data s) p"
  "span_data (finish s now) = span_data s"
  "span_data (start s now) = span_data s"
  by (simp_all add: addData_def finish_def start_def)

lemma add_simps:
  "childSpans (addResponse cfg s r b) = childSpans s"
  "childSpans (addRequest cfg s rq) = childSpans s"
  "trace (eventMeta (addResponse cfg s r b)) = trace (eventMeta s)"
  "trace (eventMeta (addRequest cfg s rq)) = trace (eventMeta s)"
  by (simp_all add: addResponse_def addRequest_def Let_def span_simps split: option.splits)

lemma distinct_add:
  "distinct (map fst (span_data s)) \<Longrightarrow> distinct (map fst (span_data (addRequest cfg s rq)))"
  "distinct (map fst (span_data s)) \<Longrightarrow> distinct (map fst (span_data (addResponse cfg s r b)))"
  by (simp_all add: addResponse_def addRequest_def Let_def span_simps distinct_object_assign
        split: option.splits)

lemma finishResponse_Inr:
  assumes "finishResponse t r e b now = Inr t'"
  shows "childSpans (self t') = childSpans (self t)"
    and "trace (eventMeta (self t')) = trace (eventMeta (self t))"
    and "distinct (map fst (span_data (self t))) \<Longrightarrow> distinct (map fst (span_data (self t')))"
    and "config t' = config t" and "sampleRate t' = sampleRate t"
    and "duration_ms (eventMeta (self t')) = Some (now - timestamp (eventMeta (self t')))"
proof -
  from assms obtain s1 where s1: "t' = t\<lparr>self := finish s1 now\<rparr>"
    and c: "childSpans s1 = childSpans (self t)"
    and tr: "trace (eventMeta s1) = trace (eventMeta (self t))"
    and d: "distinct (map fst (span_data (self t))) \<Longrightarrow> distinct (map fst (span_data s1))"
    by (auto simp: finishResponse_def bindE_def span_simps add_simps distinct_add
          distinct_object_assign split: option.splits sum.splits if_splits)
  show "childSpans (self t') = childSpans (self t)" by (simp add: s1 c span_simps)
  show "trace (eventMeta (self t')) = trace (eventMeta (self t))" by (simp add: s1 tr span_simps)
  show "distinct (map fst (span_data (self t))) \<Longrightarrow> distinct (map fst (span_data (self t')))"
    by (simp add: s1 d span_simps)
  show "config t' = config t" and "sampleRate t' = sampleRate t" by (simp_all add: s1)
  show "duration_ms (eventMeta (self t')) = Some (now - timestamp (eventMeta (self t')))"
    by (simp add: s1 finish_def)
qed

lemma has_same_children:
  "childSpans (self t') = childSpans (self t) \<Longrightarrow> has_waitUntilSpan t' = has_waitUntilSpan t"
  by (simp add: has_waitUntilSpan_def)

lemma no_trace_same_children:
  "childSpans s' = childSpans s \<Longrightarrow> trace (eventMeta s') = trace (eventMeta s) \<Longrightarrow>
   no_trace s' = no_trace s"
  by (simp add: no_trace_iff [of s'] no_trace_iff [of s])

lemma on_waitUntilSpan_keeps:
  assumes "has_waitUntilSpan t" and "no_trace (self t)"
    and "\<And>s. name (eventMeta (f s)) = name (eventMeta s)"
    and "\<And>s. ''request'' \<notin> fst ` set (span_data s) \<Longrightarrow> ''request'' \<notin> fst ` set (span_data (f s))"
    and "\<And>s. no_trace s \<Longrightarrow> no_trace (f s)"
  shows "has_waitUntilSpan (on_waitUntilSpan f t)" and "no_trace (self (on_waitUntilSpan f t))"
    and "span_data (self (on_waitUntilSpan f t)) = span_data (self t)"
proof -
  from assms(1) obtain c cs where cs: "childSpans (self t) = c # cs"
    and n: "name (eventMeta c) = JStr ''waitUntil''"
    and r: "''request'' \<notin> fst ` set (span_data c)"
    by (auto simp: has_waitUntilSpan_def split: list.splits)
  have self: "self (on_waitUntilSpan f t) =
      Span (span_data (self t)) (eventMeta (self t)) (f c # cs)"
    by (simp add: on_waitUntilSpan_def cs)
  show "has_waitUntilSpan (on_waitUntilSpan f t)"
    using n r assms(3,4) by (simp add: has_waitUntilSpan_def self)
  show "no_trace (self (on_waitUntilSpan f t))"
    using assms(2,5) by (simp add: self no_trace_iff [of "self t"] cs)
  show "span_data (self (on_waitUntilSpan f t)) = span_data (self t)"
    by (simp add: self)
qed

lemma no_trace_kept:
  "no_trace s \<Longrightarrow> no_trace (start s now)"
  "no_trace s \<Longrightarrow> no_trace (finish s now)"
  "no_trace s \<Longrightarrow> no_trace (addData s p)"
  by (simp_all add: no_trace_iff [of "start s now"] no_trace_iff [of "finish s now"]
        no_trace_iff [of "addData s p"] no_trace_iff [of s] span_simps)

lemma request_kept:
  "''request'' \<notin> fst ` set (span_data s) \<Longrightarrow> ''request'' \<notin> fst ` set (span_data (start s now))"
  "''request'' \<notin> fst ` set (span_data s) \<Longrightarrow> ''request'' \<notin> fst ` set (span_data (finish s now))"
  "''request'' \<notin> fst ` set (span_data s) \<Longrightarrow> ''request'' \<notin> fst ` set p \<Longrightarrow>
   ''request'' \<notin> fst ` set (span_data (addData s p))"
  by (simp_all add: span_simps keys_object_assign)

lemma good_tracer_update:
  assumes "good tw" and "childSpans (self t') = childSpans (self (tracer tw))"
    and "trace (eventMeta (self t')) = trace (eventMeta (self (tracer tw)))"
    and "distinct (map fst (span_data (self t')))"
  shows "good (tw\<lparr>tracer := t'\<rparr>)"
  using assms
  by (simp add: good_def has_same_children [of t' "tracer tw"]
        no_trace_same_children [of "self t'" "self (tracer tw)"])

lemma good_on_waitUntilSpan:
  assumes "good tw"
    and "\<And>s. name (eventMeta (f s)) = name (eventMeta s)"
    and "\<And>s. ''request'' \<notin> fst ` set (span_data s) \<Longrightarrow> ''request'' \<notin> fst ` set (span_data (f s))"
    and "\<And>s. no_trace s \<Longrightarrow> no_trace (f s)"
  shows "good (tw\<lparr>tracer := on_waitUntilSpan f (tracer tw)\<rparr>)"
  using assms on_waitUntilSpan_keeps [of "tracer tw" f]
  by (simp add: good_def)

lemma good_distinct: "good tw \<Longrightarrow> distinct (map fst (span_data (self (tracer tw))))"
  by (simp add: good_def)

lemma good_fields:
  "good (tw\<lparr>settler := st\<rparr>) = good tw"
  "good (tw\<lparr>batches := bs\<rparr>) = good tw"
  "good (tw\<lparr>waitUntilUsed := u\<rparr>) = good tw"
  by (simp_all add: good_def)

lemma good_new: "good (new_TraceWrapper request cfg now0 now1)"
  by (simp add: good_def new_TraceWrapper_def startChildSpan_def new_Span_def Let_def
        has_waitUntilSpan_def new_RequestTracer_def span_simps add_simps distinct_add
        distinct_object_assign no_trace_iff [of "Span d m cs" for d m cs]
        no_trace_same_children [of "addData s p" s for s p]
        no_trace_same_children [of "addRequest c s r" s for c s r])

lemma good_finishResponse:
  "good tw \<Longrightarrow> finishResponse (tracer tw) r e b now = Inr t' \<Longrightarrow> good (tw\<lparr>tracer := t'\<rparr>)"
  by (rule good_tracer_update) (simp_all add: finishResponse_Inr good_distinct)

lemma good_catch: "good tw \<Longrightarrow> good (snd (catch_listener_error tw err now))"
  by (auto simp: catch_listener_error_def good_finishResponse split: sum.splits)

lemma good_finishWaitUntil: "good tw \<Longrightarrow> finishWaitUntil tw e = Inr tw' \<Longrightarrow> good tw'"
proof -
  assume g: "good tw" and f: "finishWaitUntil tw e = Inr tw'"
  show ?thesis
  proof (cases "truthy e")
    case False
    with f g show ?thesis by (simp add: finishWaitUntil_def)
  next
    case True
    with f obtain w where w: "call_toString e = Inr w"
      by (auto simp: finishWaitUntil_def bindE_def split: sum.splits)
    let ?tw1 = "tw\<lparr>tracer := (tracer tw)\<lparr>self := addData (self (tracer tw))
        [(''exception'', JBool True), (''waitUtilException'', JStr w)]\<rparr>\<rparr>"
    have g1: "good ?tw1"
      using g by (rule good_tracer_update)
        (simp_all add: span_simps distinct_object_assign good_distinct [OF g])
    let ?tw2 = "?tw1\<lparr>tracer := on_waitUntilSpan (\<lambda>s. addData s [(''exception'', e)]) (tracer ?tw1)\<rparr>"
    have g2: "good ?tw2"
      using g1 by (rule good_on_waitUntilSpan)
        (simp_all add: span_simps no_trace_kept keys_object_assign)
    let ?tw3 = "?tw2\<lparr>tracer := on_waitUntilSpan
        (\<lambda>s. addData s [(''stacktrace'', read_prop e ''stack'')]) (tracer ?tw2)\<rparr>"
    have g3: "good ?tw3"
      using g2 by (rule good_on_waitUntilSpan)
        (simp_all add: span_simps no_trace_kept keys_object_assign)
    from f True w have "tw' = ?tw3 \<or> tw' = ?tw2"
      by (auto simp: finishWaitUntil_def bindE_def Let_def split: if_splits)
    with g2 g3 show ?thesis by auto
  qed
qed

lemma good_settled_callback: "good tw \<Longrightarrow> good (settled_callback tw now random)"
proof -
  assume "good tw"
  then have "good (tw\<lparr>tracer := on_waitUntilSpan (\<lambda>s. finish s now) (tracer tw)\<rparr>)"
    by (rule good_on_waitUntilSpan) (simp_all add: span_simps no_trace_kept keys_object_assign)
  then show ?thesis
    by (simp add: settled_callback_def Let_def good_fields split: sum.splits option.splits)
qed

lemma good_step: "good tw \<Longrightarrow> tw_step tw e = Some tw' \<Longrightarrow> good tw'"
proof (cases e)
  case (WaitUntil p now)
  assume g: "good tw" and s: "tw_step tw e = Some tw'"
  from g have "good (tw\<lparr>tracer := on_waitUntilSpan (\<lambda>s. start s now) (tracer tw)\<rparr>)"
    by (rule good_on_waitUntilSpan) (simp_all add: span_simps no_trace_kept keys_object_assign)
  then show ?thesis using s WaitUntil
    by (auto simp: waitUntil_apply_def startWaitUntil_def Let_def good_fields split: prod.splits)
       (simp add: good_def)
next
  case RespondWith
  assume "good tw" "tw_step tw e = Some tw'"
  then show ?thesis using RespondWith
    by (auto simp: respondWith_apply_def Let_def good_fields split: prod.splits)
next
  case (HandlerThrew err now)
  assume "good tw" "tw_step tw e = Some tw'"
  then show ?thesis using HandlerThrew by (auto simp: good_catch)
next
  case (TracerAddData patch)
  assume g: "good tw" and s: "tw_step tw e = Some tw'"
  from s TracerAddData
  have tw': "tw' = tw\<lparr>tracer := (tracer tw)\<lparr>self := addData (self (tracer tw)) patch\<rparr>\<rparr>"
    by simp
  show ?thesis unfolding tw' using g
    by (rule good_tracer_update)
       (simp_all add: span_simps distinct_object_assign good_distinct [OF g])
next
  case (TracerSetSampleRate r)
  assume g: "good tw" and s: "tw_step tw e = Some tw'"
  from s TracerSetSampleRate
  have tw': "tw' = tw\<lparr>tracer := setSampleRate (tracer tw) r\<rparr>"
    by simp
  show ?thesis unfolding tw' using g
    by (rule good_tracer_update) (simp_all add: setSampleRate_def good_distinct [OF g])
next
  case (TracerStartChildSpan n sv now)
  assume g: "good tw" and s: "tw_step tw e = Some tw'"
  from g obtain c cs where cs: "childSpans (self (tracer tw)) = c # cs"
    by (auto simp: good_def has_waitUntilSpan_def split: list.splits)
  show ?thesis using g s TracerStartChildSpan
    by (auto simp: good_def startChildSpan_def Let_def has_waitUntilSpan_def cs new_Span_def
        no_trace_iff [of "self (tracer tw)"])
next
  case (PromiseSettles i out)
  assume "good tw" "tw_step tw e = Some tw'"
  then show ?thesis using PromiseSettles by (auto simp: good_fields split: if_splits)
next
  case (FinishWaitUntil err)
  assume "good tw" "tw_step tw e = Some tw'"
  then show ?thesis using FinishWaitUntil
    by (auto simp: good_finishWaitUntil split: sum.splits)
next
  case (ResponseFinishes r err b now)
  assume "good tw" "tw_step tw e = Some tw'"
  then show ?thesis using ResponseFinishes
    by (auto simp: good_finishResponse split: sum.splits)
next
  case (JoinRuns k now random)
  assume "good tw" "tw_step tw e = Some tw'"
  then show ?thesis using JoinRuns
    by (auto simp: Let_def good_settled_callback good_fields split: if_splits)
qed

lemma good_run: "good tw \<Longrightarrow> tw_run tw es = Some tw' \<Longrightarrow> good tw'"
  by (induction es arbitrary: tw) (auto split: option.splits dest: good_step)

lemma good_reachable:
  "tw_run (new_TraceWrapper request cfg now0 now1) es = Some tw \<Longrightarrow> good tw"
  using good_new by (rule good_run)

text \<open>\<^verbatim>\<open>waitUntilUsed\<close> is set by the calls of \<^verbatim>\<open>event.waitUntil\<close> and by nothing else.\<close>

lemma used_step:
  "tw_step tw e = Some tw' \<Longrightarrow> waitUntilUsed tw' = (waitUntilUsed tw \<or> is_WaitUntil e)"
  by (cases e)
     (auto simp: is_WaitUntil_def waitUntil_apply_def startWaitUntil_def respondWith_apply_def
        catch_listener_error_def finishWaitUntil_def bindE_def settled_callback_def Let_def
        split: prod.splits sum.splits option.splits if_splits)

lemma used_run:
  "tw_run tw es = Some tw' \<Longrightarrow>
   waitUntilUsed tw' = (waitUntilUsed tw \<or> (\<exists>e \<in> set es. is_WaitUntil e))"
  by (induction es arbitrary: tw) (auto split: option.splits dest: used_step)

section \<open>The background-work event\<close>

lemma has_waitUntilSpan_name:
  assumes "has_waitUntilSpan t"
  shows "JStr ''waitUntil'' \<in> set (event_names (parseToEvents (self t)))"
proof -
  from assms obtain c cs where cs: "childSpans (self t) = c # cs"
    and n: "name (eventMeta c) = JStr ''waitUntil''"
    by (auto simp: has_waitUntilSpan_def split: list.splits)
  have "to_event c \<in> set (parseToEvents c)"
    by (subst parseToEvents_unfold) simp
  then have "to_event c \<in> set (parseToEvents (self t))"
    by (subst parseToEvents_unfold) (simp add: cs)
  then have "obj_get (to_event c) ''name'' \<in> set (event_names (parseToEvents (self t)))"
    unfolding event_names_def set_map by (rule imageI)
  then show ?thesis by (simp add: name_to_event n)
qed

lemma batch_of_callback:
  assumes "batches (settled_callback tw now random) = batches tw @ [(events, rate)]"
  shows "events = filter (\<lambda>event. obj_get event ''name'' \<notin>
                   JStr ` set (if waitUntilUsed tw then [] else [''waitUntil'']))
           (parseToEvents (self (on_waitUntilSpan (\<lambda>s. finish s now) (tracer tw))))"
  using assms
  by (auto simp: settled_callback_def TraceWrapper_sendEvents_def sendEvents_def bindE_def Let_def
      split: sum.splits option.splits if_splits)

lemma batch_of_join:
  assumes "tw_step tw (JoinRuns k now random) = Some tw'"
    and "batches tw' = batches tw @ [(events, rate)]"
  shows "events = filter (\<lambda>event. obj_get event ''name'' \<notin>
                   JStr ` set (if waitUntilUsed tw then [] else [''waitUntil'']))
           (parseToEvents (self (on_waitUntilSpan (\<lambda>s. finish s now) (tracer tw))))"
proof -
  define tw1 where "tw1 = tw\<lparr>settler := join_callback (settler tw) k\<rparr>"
  from assms have tw': "tw' = settled_callback tw1 now random"
    by (auto simp: tw1_def Let_def split: if_splits)
  have "batches (settled_callback tw1 now random) = batches tw1 @ [(events, rate)]"
    using assms(2) tw' by (simp add: tw1_def)
  from batch_of_callback [OF this] show ?thesis by (simp add: tw1_def)
qed

text \<open>
  Take any life of a request, from the construction of its wrapper, and a join callback that
  runs next and makes the wrapper call \<^verbatim>\<open>sendBatch\<close>. The event list handed to \<^verbatim>\<open>sendBatch\<close> has
  an event named \<^verbatim>\<open>waitUntil\<close> exactly when the handler has called the intercepted
  \<^verbatim>\<open>event.waitUntil\<close> before.
\<close>

lemma handed_waitUntil_iff_registered:
  assumes run: "tw_run (new_TraceWrapper request cfg now0 now1) es = Some tw"
    and step: "tw_step tw (JoinRuns k now random) = Some tw'"
    and b: "batches tw' = batches tw @ [(events, rate)]"
  shows "(JStr ''waitUntil'' \<in> set (event_names events)) = (\<exists>e \<in> set es. is_WaitUntil e)"
proof -
  from used_run [OF run]
  have used: "waitUntilUsed tw = (\<exists>e \<in> set es. is_WaitUntil e)"
    by (simp add: new_TraceWrapper_def Let_def split: prod.splits)
  from good_reachable [OF run] have g: "good tw" .
  note ev = batch_of_join [OF step b]
  show ?thesis
  proof (cases "waitUntilUsed tw")
    case True
    from g have "good (tw\<lparr>tracer := on_waitUntilSpan (\<lambda>s. finish s now) (tracer tw)\<rparr>)"
      by (rule good_on_waitUntilSpan) (simp_all add: span_simps no_trace_kept)
    then have "has_waitUntilSpan (on_waitUntilSpan (\<lambda>s. finish s now) (tracer tw))"
      by (simp add: good_def)
    from has_waitUntilSpan_name [OF this] True ev used show ?thesis by simp
  next
    case False
    with ev used show ?thesis by (auto simp: event_names_def)
  qed
qed

text \<open>
  What \<^verbatim>\<open>sendBatch\<close> makes of a list whose second event has no \<^verbatim>\<open>request\<close>: the loop over
  \<^verbatim>\<open>events[i]\<close>, \<open>i \<ge> 1\<close>, reads \<^verbatim>\<open>events[1].request.method\<close>, a TypeError, and the \<^verbatim>\<open>catch\<close> block
  is entered before \<^verbatim>\<open>traces\<close> is serialized.
\<close>

lemma bindE_Inr: "bindE r f = Inr y \<Longrightarrow> \<exists>x. r = Inr x \<and> f x = Inr y"
  by (cases r) (simp_all add: bindE_def)

lemma bindE_InlE:
  assumes "bindE r f = Inl e"
  obtains "r = Inl e" | x where "r = Inr x" and "f x = Inl e"
  using assms by (cases r) (simp_all add: bindE_def)

lemma get_prop_Inl: "get_prop v k = Inl e \<Longrightarrow> e = TypeError"
  by (simp add: get_prop_def split: if_splits)

lemma as_string_Inl: "as_string v = Inl e \<Longrightarrow> e = TypeError"
  by (simp add: as_string_def split: jsval.splits)

lemma http_trace_Inl: "http_trace event = Inl e \<Longrightarrow> e = TypeError"
  unfolding http_trace_def
  by (erule bindE_InlE, erule get_prop_Inl)+ simp

lemma mapE_http_trace_Inl: "mapE http_trace events = Inl e \<Longrightarrow> e = TypeError"
proof (induction events arbitrary: e)
  case Nil
  then show ?case by simp
next
  case (Cons event events)
  from Cons.prems show ?case
    unfolding mapE.simps
    by (elim bindE_InlE) (auto dest: http_trace_Inl Cons.IH)
qed

lemma sendBatch_Inl: "sendBatch cfg pathname events = Inl e \<Longrightarrow> e = TypeError"
proof (cases events)
  case Nil
  assume "sendBatch cfg pathname events = Inl e"
  with Nil show ?thesis by (simp add: sendBatch_def)
next
  case (Cons event0 rest)
  assume "sendBatch cfg pathname events = Inl e"
  then show ?thesis
    unfolding sendBatch_def Cons list.case
    apply -
    apply (erule bindE_InlE, erule get_prop_Inl)+
    apply (erule bindE_InlE, simp split: option.splits)
    apply (erule bindE_InlE, erule as_string_Inl)
    apply (simp only: Let_def)
    apply (erule bindE_InlE, erule mapE_http_trace_Inl)
    apply simp
    done
qed

lemma sendBatch_Inr_rest:
  assumes "sendBatch cfg pathname (event0 # rest) = Inr traces"
  shows "\<exists>http_traces. mapE http_trace rest = Inr http_traces"
  using assms unfolding sendBatch_def list.case
  apply -
  apply (drule bindE_Inr, elim exE conjE)+
  apply (simp only: Let_def)
  apply (drule bindE_Inr, elim exE conjE)
  apply blast
  done

lemma obj_get_absent: "k \<notin> fst ` set kvs \<Longrightarrow> obj_get kvs k = JUndefined"
proof -
  assume "k \<notin> fst ` set kvs"
  then have "map_of kvs k = None" by (simp add: map_of_eq_None_iff)
  then show ?thesis by (simp add: obj_get_def)
qed

lemma http_trace_no_request:
  assumes "''request'' \<notin> fst ` set (span_data s)"
  shows "http_trace (to_event s) = Inl TypeError"
proof -
  have "''request'' \<notin> fst ` set (to_event s)"
    using assms
    by (auto simp: to_event_def keys_object_assign meta_entries_def split: option.splits)
  then have "obj_get (to_event s) ''request'' = JUndefined"
    by (rule obj_get_absent)
  then show ?thesis
    by (simp add: http_trace_def get_prop_def bindE_def)
qed

lemma sendBatch_second_fails:
  assumes "http_trace event1 = Inl TypeError"
  shows "sendBatch cfg pathname (event0 # event1 # rest) = Inl TypeError"
proof (cases "sendBatch cfg pathname (event0 # event1 # rest)")
  case (Inl e)
  then show ?thesis by (simp add: sendBatch_Inl [OF Inl])
next
  case (Inr traces)
  from sendBatch_Inr_rest [OF Inr] assms show ?thesis
    by (simp add: bindE_def)
qed

text \<open>
  So no event list with the background-work event is ever serialized: in every life of a
  request in which the handler has called the intercepted \<^verbatim>\<open>event.waitUntil\<close>, whatever list
  the wrapper hands to \<^verbatim>\<open>sendBatch\<close> makes \<^verbatim>\<open>sendBatch\<close> end in its \<^verbatim>\<open>catch\<close> block. (The lives
  are those of \<open>tw_step\<close>, in which the handler writes no data to the waitUntil span.)
\<close>

lemma retained_batch_fails:
  assumes run: "tw_run (new_TraceWrapper request cfg now0 now1) es = Some tw"
    and reg: "\<exists>e \<in> set es. is_WaitUntil e"
    and step: "tw_step tw (JoinRuns k now random) = Some tw'"
    and b: "batches tw' = batches tw @ [(events, rate)]"
  shows "sendBatch (config (tracer tw')) pathname events = Inl TypeError"
proof -
  from used_run [OF run] reg have used: "waitUntilUsed tw"
    by (simp add: new_TraceWrapper_def Let_def split: prod.splits)
  let ?t = "on_waitUntilSpan (\<lambda>s. finish s now) (tracer tw)"
  from batch_of_join [OF step b] used
  have ev: "events = parseToEvents (self ?t)" by simp
  from good_reachable [OF run]
  have "good (tw\<lparr>tracer := ?t\<rparr>)"
    by (rule good_on_waitUntilSpan) (simp_all add: span_simps no_trace_kept)
  then obtain c cs where cs: "childSpans (self ?t) = c # cs"
    and r: "''request'' \<notin> fst ` set (span_data c)"
    by (auto simp: good_def has_waitUntilSpan_def split: list.splits)
  have "parseToEvents (self ?t) =
      to_event (self ?t) # to_event c # concat (map parseToEvents (childSpans c)) @
        concat (map parseToEvents cs)"
    by (subst parseToEvents_unfold) (simp add: cs parseToEvents_unfold [of c])
  with ev sendBatch_second_fails [OF http_trace_no_request [OF r]] show ?thesis
    by simp
qed

text \<open>
  C6, where the code departs from it. The handler of \<^verbatim>\<open>GET https://a.example.com/foo\<close> calls
  \<^verbatim>\<open>event.waitUntil(p)\<close> and \<^verbatim>\<open>event.respondWith(r)\<close>; the response arrives with status 200, both
  promises are fulfilled, and the join callback of the second registration runs, with a
  draw of \<^verbatim>\<open>Math.random()\<close> that passes the sampling. A background task was registered, and
  the event list the wrapper hands to \<^verbatim>\<open>sendBatch\<close> retains the event named \<^verbatim>\<open>waitUntil\<close>, after
  the root event; but \<^verbatim>\<open>sendBatch\<close> ends in its \<^verbatim>\<open>catch\<close> block with a TypeError, so that no
  event list is serialized and emitted at all. In the same life without the call of
  \<^verbatim>\<open>event.waitUntil\<close> the list has the root event only, and \<^verbatim>\<open>sendBatch\<close> serializes the trigger
  and the runner trace made of it.
\<close>

theorem waitUntil_batch_not_sent:
  "list_ex is_WaitUntil run_with \<and>
   event_names (fst (last_batch run_with (JoinRuns 2 130 0))) =
     [JStr ''request'', JStr ''waitUntil''] \<and>
   sent_with = Inl TypeError \<and>
   \<not> list_ex is_WaitUntil run_without \<and>
   event_names (fst (last_batch run_without (JoinRuns 1 130 0))) = [JStr ''request''] \<and>
   map_sum id (\<lambda>traces. map (\<lambda>t. read_prop t ''origin'') (case read_prop traces ''events'' of
       JArr ts \<Rightarrow> ts | _ \<Rightarrow> [])) sent_without = Inr [JStr ''trigger'', JStr ''runner'']"
proof -
  have "list_ex is_WaitUntil run_with" by code_simp
  moreover have "event_names (fst (last_batch run_with (JoinRuns 2 130 0))) =
      [JStr ''request'', JStr ''waitUntil'']" by code_simp
  moreover have "sent_with = Inl TypeError" by code_simp
  moreover have "\<not> list_ex is_WaitUntil run_without" by code_simp
  moreover have "event_names (fst (last_batch run_without (JoinRuns 1 130 0))) =
      [JStr ''request'']" by code_simp
  moreover have "map_sum id (\<lambda>traces. map (\<lambda>t. read_prop t ''origin'')
      (case read_prop traces ''events'' of JArr ts \<Rightarrow> ts | _ \<Rightarrow> [])) sent_without =
      Inr [JStr ''trigger'', JStr ''runner'']" by code_simp
  ultimately show ?thesis by blast
qed

section \<open>A handler that throws\<close>

text \<open>
  What the \<^verbatim>\<open>catch\<close> block of \<^verbatim>\<open>setUpRespondWith\<close> does with the thrown value \<open>err\<close>. A truthy
  value whose \<^verbatim>\<open>toString()\<close> returns is recorded in the root span's data and the root span is
  finished; a falsy one (\<^verbatim>\<open>throw null\<close>) is not recorded, the root span is only finished; a
  truthy one whose \<^verbatim>\<open>toString\<close> cannot be called makes \<^verbatim>\<open>finishResponse\<close> throw a TypeError,
  which leaves the \<^verbatim>\<open>catch\<close> block, the constructor and the instrumentor.
\<close>

lemma error_data:
  "obj_get (object_assign d
       [(''exception'', ex), (''error_name'', en), (''stack'', sk), (''message'', ms),
        (''responseException'', re)]) ''exception'' = ex"
  "obj_get (object_assign d
       [(''exception'', ex), (''error_name'', en), (''stack'', sk), (''message'', ms),
        (''responseException'', re)]) ''error_name'' = en"
  "obj_get (object_assign d
       [(''exception'', ex), (''error_name'', en), (''stack'', sk), (''message'', ms),
        (''responseException'', re)]) ''stack'' = sk"
  "obj_get (object_assign d
       [(''exception'', ex), (''error_name'', en), (''stack'', sk), (''message'', ms),
        (''responseException'', re)]) ''message'' = ms"
  "obj_get (object_assign d
       [(''exception'', ex), (''error_name'', en), (''stack'', sk), (''message'', ms),
        (''responseException'', re)]) ''responseException'' = re"
  "obj_get (object_assign d
       [(''exception'', ex), (''error_name'', en), (''stack'', sk), (''message'', ms),
        (''responseException'', re)]) ''response'' = obj_get d ''response''"
  by (simp_all add: object_assign_def obj_get_obj_set)

lemma catch_captures:
  assumes "truthy err" and "call_toString err = Inr str"
    and "catch_listener_error tw err now = (thrown, tw')"
  shows "thrown = None"
    and "obj_get (span_data (self (tracer tw'))) ''exception'' = JBool True"
    and "obj_get (span_data (self (tracer tw'))) ''error_name'' = read_prop err ''name''"
    and "obj_get (span_data (self (tracer tw'))) ''message'' = read_prop err ''message''"
    and "obj_get (span_data (self (tracer tw'))) ''stack'' = read_prop err ''stack''"
    and "obj_get (span_data (self (tracer tw'))) ''responseException'' = JStr str"
    and "obj_get (span_data (self (tracer tw'))) ''response'' =
           obj_get (span_data (self (tracer tw))) ''response''"
    and "duration_ms (eventMeta (self (tracer tw'))) =
           Some (now - timestamp (eventMeta (self (tracer tw))))"
    and "settler tw' = settler tw" and "batches tw' = batches tw"
  using assms
  by (auto simp: catch_listener_error_def finishResponse_def bindE_def span_simps error_data
        finish_def addData_def)

lemma catch_falsy:
  assumes "\<not> truthy err"
  shows "catch_listener_error tw err now =
           (None, tw\<lparr>tracer := (tracer tw)\<lparr>self := finish (self (tracer tw)) now\<rparr>\<rparr>)"
  using assms by (simp add: catch_listener_error_def finishResponse_def bindE_def)

lemma catch_throws:
  assumes "truthy err" and "call_toString err = Inl e"
  shows "catch_listener_error tw err now = (Some e, tw)"
  using assms by (simp add: catch_listener_error_def finishResponse_def bindE_def)

lemma null_listener_not_recorded:
  "fst (setUpRespondWith example_wrapper null_listener 130) = None \<and>
   obj_get (span_data (self (tracer (snd (setUpRespondWith example_wrapper null_listener 130)))))
     ''exception'' = JUndefined \<and>
   duration_ms (eventMeta (self (tracer (snd
     (setUpRespondWith example_wrapper null_listener 130))))) = Some 30"
proof -
  have "fst (setUpRespondWith example_wrapper null_listener 130) = None"
    by code_simp
  moreover have "obj_get (span_data (self (tracer (snd
      (setUpRespondWith example_wrapper null_listener 130))))) ''exception'' = JUndefined"
    by code_simp
  moreover have "duration_ms (eventMeta (self (tracer (snd
     (setUpRespondWith example_wrapper null_listener 130))))) = Some 30"
    by code_simp
  ultimately show ?thesis by blast
qed

lemma odd_listener_escapes:
  "fst (setUpRespondWith example_wrapper odd_listener 130) = Some TypeError"
  by code_simp

text \<open>
  The runner trace \<^verbatim>\<open>sendBatch\<close> makes of a list whose first event has a truthy \<^verbatim>\<open>exception\<close>.
\<close>

lemma sendBatch_runner:
  assumes "sendBatch cfg pathname (event0 # rest) = Inr traces"
    and "truthy (obj_get event0 ''exception'')"
  shows "read_prop (runner_trace_of traces) ''origin'' = JStr ''runner'' \<and>
   read_prop (runner_trace_of traces) ''error_code'' = JNum 2 \<and>
   read_prop (read_prop (runner_trace_of traces) ''exception'') ''message'' =
     obj_get event0 ''message'' \<and>
   read_prop (read_prop (runner_trace_of traces) ''exception'') ''type'' =
     obj_get event0 ''error_name'' \<and>
   read_prop (read_prop (runner_trace_of traces) ''exception'') ''tracebook'' =
     obj_get event0 ''stack''"
proof -
  from assms(1) have "\<exists>trigger resource https.
     read_prop traces ''events'' =
       JArr (trigger #
             JObj (obj_set
                     (obj_set [(''origin'', JStr ''runner''), (''resource'', resource)]
                        ''exception''
                        (JObj [(''type'', obj_get event0 ''error_name''),
                               (''tracebook'', obj_get event0 ''stack''),
                               (''additional_data'',
                                JObj [(''warning'', JBool False), (''handled'', JBool False)]),
                               (''message'', obj_get event0 ''message'')]))
                     ''error_code'' (JNum 2)) #
             https)"
    unfolding sendBatch_def list.case
    apply -
    apply (drule bindE_Inr, elim exE conjE)+
    apply (simp only: Let_def assms(2) if_True)
    apply (drule bindE_Inr, elim exE conjE)
    apply (simp only: sum.inject)
    apply (clarsimp simp: obj_get_def)
    done
  then show ?thesis
    by (auto simp: runner_trace_of_def obj_get_def)
qed

text \<open>
  But \<^verbatim>\<open>sendBatch\<close> is called from the \<^verbatim>\<open>finished\<close> callback of the coordinator only, and the
  coordinator installs a join callback only in \<^verbatim>\<open>addPromise\<close>. In a life of a request in which
  neither \<^verbatim>\<open>event.waitUntil\<close> nor \<^verbatim>\<open>event.respondWith\<close> is called, whatever else happens, the
  coordinator stays as it was constructed, no join callback can run and \<^verbatim>\<open>sendBatch\<close> is not
  called.
\<close>

lemma idle_step:
  assumes "settler tw = new_coordinator" and "batches tw = []"
    and "\<not> is_registration e" and "tw_step tw e = Some tw'"
  shows "settler tw' = new_coordinator \<and> batches tw' = []"
  using assms
  by (cases e)
     (auto simp: is_registration_def catch_listener_error_def finishWaitUntil_def bindE_def
        Let_def join_ready_def new_coordinator_def split: sum.splits if_splits)

lemma idle_run:
  assumes "tw_run tw es = Some tw'" and "settler tw = new_coordinator" and "batches tw = []"
    and "\<forall>e \<in> set es. \<not> is_registration e"
  shows "settler tw' = new_coordinator \<and> batches tw' = []"
  using assms
proof (induction es arbitrary: tw)
  case Nil
  then show ?case by simp
next
  case (Cons e es)
  from Cons.prems(1) obtain tw1 where s: "tw_step tw e = Some tw1" and r: "tw_run tw1 es = Some tw'"
    by (auto split: option.splits)
  from idle_step [OF Cons.prems(2,3) _ s] Cons.prems(4)
  have "settler tw1 = new_coordinator" and "batches tw1 = []" by simp_all
  from Cons.IH [OF r this] Cons.prems(4) show ?case by simp
qed

lemma no_registration_no_batch:
  assumes "tw_run (new_TraceWrapper request cfg now0 now1) es = Some tw"
    and "\<forall>e \<in> set es. \<not> is_registration e"
  shows "batches tw = []" and "settler tw = new_coordinator"
    and "tw_step tw (JoinRuns k now random) = None"
proof -
  have "settler (new_TraceWrapper request cfg now0 now1) = new_coordinator"
    and "batches (new_TraceWrapper request cfg now0 now1) = []"
    by (simp_all add: new_TraceWrapper_def Let_def split: prod.splits)
  from idle_run [OF assms(1) this assms(2)]
  show "batches tw = []" and s: "settler tw = new_coordinator" by simp_all
  show "tw_step tw (JoinRuns k now random) = None"
    by (simp add: s join_ready_def new_coordinator_def)
qed

text \<open>
  C7, where the code departs from it. The handler of \<^verbatim>\<open>GET https://a.example.com/foo\<close> throws
  \<^verbatim>\<open>Error("boom")\<close> at once. \<^verbatim>\<open>setUpRespondWith\<close> catches the error and throws nothing to the
  host; the root span's data has \<^verbatim>\<open>exception: true\<close> and the name, message and stack of the
  error, no response, and the root span is finished. But nothing was registered with the
  coordinator: it tracks no promise and has no join callback, no join callback can run then
  or later, and \<^verbatim>\<open>sendBatch\<close> has not been called. No runner trace results, with or without
  \<^verbatim>\<open>error_code\<close> 2.
\<close>

theorem bare_throw_builds_no_batch:
  "throwing_listener example_wrapper =
     (example_wrapper, Some (JErr ''Error'' ''boom'' ''at handler'')) \<and>
   fst (setUpRespondWith example_wrapper throwing_listener 130) = None \<and>
   obj_get (span_data (self (tracer after_throw))) ''exception'' = JBool True \<and>
   obj_get (span_data (self (tracer after_throw))) ''error_name'' = JStr ''Error'' \<and>
   obj_get (span_data (self (tracer after_throw))) ''message'' = JStr ''boom'' \<and>
   obj_get (span_data (self (tracer after_throw))) ''stack'' = JStr ''at handler'' \<and>
   obj_get (span_data (self (tracer after_throw))) ''response'' = JUndefined \<and>
   duration_ms (eventMeta (self (tracer after_throw))) = Some 30 \<and>
   promises (settler after_throw) = [] \<and>
   joins (settler after_throw) = [] \<and>
   finished_calls (settler after_throw) = [] \<and>
   batches after_throw = [] \<and>
   (\<forall>k now random. tw_step after_throw (JoinRuns k now random) = None)"
proof -
  have "throwing_listener example_wrapper =
     (example_wrapper, Some (JErr ''Error'' ''boom'' ''at handler''))"
    by (simp add: throwing_listener_def)
  moreover have "fst (setUpRespondWith example_wrapper throwing_listener 130) = None"
    by code_simp
  moreover have "obj_get (span_data (self (tracer after_throw))) ''exception'' = JBool True"
    by code_simp
  moreover have "obj_get (span_data (self (tracer after_throw))) ''error_name'' = JStr ''Error''"
    by code_simp
  moreover have "obj_get (span_data (self (tracer after_throw))) ''message'' = JStr ''boom''"
    by code_simp
  moreover have "obj_get (span_data (self (tracer after_throw))) ''stack'' = JStr ''at handler''"
    by code_simp
  moreover have "obj_get (span_data (self (tracer after_throw))) ''response'' = JUndefined"
    by code_simp
  moreover have "duration_ms (eventMeta (self (tracer after_throw))) = Some 30"
    by code_simp
  moreover have s: "settler after_throw = new_coordinator"
    by code_simp
  moreover have "batches after_throw = []"
    by code_simp
  moreover have "\<forall>k now random. tw_step after_throw (JoinRuns k now random) = None"
    by (simp add: s join_ready_def new_coordinator_def)
  ultimately show ?thesis by (simp add: new_coordinator_def)
qed

section \<open>Child spans\<close>


text \<open>
  No span of a request has a trace context: the two calls of the constructor of \<^verbatim>\<open>Span\<close>, in
  the constructor of \<^verbatim>\<open>RequestTracer\<close> and in \<^verbatim>\<open>startChildSpan\<close>, pass none, and no method writes
  \<^verbatim>\<open>eventMeta.trace\<close>.
\<close>

lemma startChildSpan_no_trace:
  "no_trace s \<Longrightarrow> startChildSpan s n sv now = (c, s') \<Longrightarrow> no_trace c \<and> no_trace s'"
  by (auto simp: startChildSpan_def new_Span_def Let_def no_trace_iff [of s])





end
